theory Spec2Isabelle
  imports Complex_Main
begin

section \<open>Tables, series and the pandas operations the pipeline calls\<close>

text \<open>
  The pipeline works on pandas tables. A table maps column names to columns of equal
  length. Three kinds of column occur:
  \<^item> an object column, as read from a raw extract: each cell is a number, a string or a
    null (\<open>None\<close>/\<open>NaN\<close>);
  \<^item> a numpy-backed numeric column (\<open>int64\<close>/\<open>float64\<close>), whose null is \<open>NaN\<close>;
  \<^item> a nullable integer column (\<open>Int64\<close>), whose null is \<open>pd.NA\<close>.
  Numbers are rationals: floating-point rounding is not modelled, and a float infinity
  is not a value of the model, so a cell or a string that pandas reads as an infinity is
  outside it. What pandas reads from a string (\<open>pd.to_numeric\<close>) and what Python's
  \<open>int()\<close> reads from one are parameters \<open>parse\<close> and \<open>pyint\<close>: \<open>parse s = Some x\<close> when
  pandas reads the number \<open>x\<close> from \<open>s\<close>, and \<open>None\<close> when the string is not a number.
\<close>

datatype cell = Number rat | Text string | Missing

datatype numeric = Numpy "rat option list" | Masked "rat option list"

datatype column = Object "cell list" | Numeric numeric

text \<open>A boolean series: numpy-backed, or nullable (\<open>boolean\<close> dtype, \<open>None\<close> is \<open>pd.NA\<close>).\<close>

datatype bools = BNumpy "bool list" | BMasked "bool option list"

type_synonym frame = "string \<Rightarrow> column option"

text \<open>
  The exceptions the modelled code can raise. \<open>MissingColumnError\<close> is the error class the
  specification names; no statement of the source raises it.
\<close>

datatype error = KeyError | AttributeError | TypeError | ValueError | MissingColumnError

fun nvals :: "numeric \<Rightarrow> rat option list" where
  "nvals (Numpy xs) = xs"
| "nvals (Masked xs) = xs"

fun bvals :: "bools \<Rightarrow> bool option list" where
  "bvals (BNumpy bs) = map Some bs"
| "bvals (BMasked bs) = bs"

text \<open>\<open>pd.to_numeric(s, errors="coerce")\<close>: a string that is not a number becomes null.\<close>

fun coerce :: "(string \<Rightarrow> rat option) \<Rightarrow> cell \<Rightarrow> rat option" where
  "coerce parse (Number x) = Some x"
| "coerce parse (Text s) = parse s"
| "coerce parse Missing = None"

fun to_numeric :: "(string \<Rightarrow> rat option) \<Rightarrow> column \<Rightarrow> numeric" where
  "to_numeric parse (Object cs) = Numpy (map (coerce parse) cs)"
| "to_numeric parse (Numeric n) = n"

text \<open>
  \<open>s.astype("Int64")\<close>: a numpy-backed series is cast to nullable 64-bit integers. pandas
  refuses the cast with a \<open>TypeError\<close> when a value is not a whole number or does not fit
  in 64 bits (the value and its cast differ); a nullable integer series is returned as
  it is. (On a float infinity, which the model does not have, the cast raises
  \<open>OverflowError\<close>.)
\<close>

definition whole :: "rat \<Rightarrow> bool" where
  "whole x = (of_int \<lfloor>x\<rfloor> = x)"

definition int64 :: "rat \<Rightarrow> bool" where
  "int64 x = (whole x \<and> - (2 ^ 63) \<le> x \<and> x < 2 ^ 63)"

fun astype_Int64 :: "numeric \<Rightarrow> error + numeric" where
  "astype_Int64 (Numpy xs) =
     (if list_all (\<lambda>v. case v of None \<Rightarrow> True | Some x \<Rightarrow> int64 x) xs
      then Inr (Masked xs) else Inl TypeError)"
| "astype_Int64 (Masked xs) = Inr (Masked xs)"

text \<open>\<open>s.fillna(v)\<close> on a numeric series.\<close>

fun fillna :: "numeric \<Rightarrow> rat \<Rightarrow> numeric" where
  "fillna (Numpy xs) v = Numpy (map (\<lambda>c. case c of None \<Rightarrow> Some v | Some x \<Rightarrow> Some x) xs)"
| "fillna (Masked xs) v = Masked (map (\<lambda>c. case c of None \<Rightarrow> Some v | Some x \<Rightarrow> Some x) xs)"

text \<open>
  An elementwise comparison with a number. On a numpy-backed series a null compares
  false; on a nullable series the result is null.
\<close>

fun cmp :: "(rat \<Rightarrow> bool) \<Rightarrow> numeric \<Rightarrow> bools" where
  "cmp p (Numpy xs) = BNumpy (map (\<lambda>c. case c of None \<Rightarrow> False | Some x \<Rightarrow> p x) xs)"
| "cmp p (Masked xs) = BMasked (map (map_option p) xs)"

definition gt_s :: "numeric \<Rightarrow> rat \<Rightarrow> bools" where
  "gt_s s k = cmp (\<lambda>x. k < x) s"

definition ge_s :: "numeric \<Rightarrow> rat \<Rightarrow> bools" where
  "ge_s s k = cmp (\<lambda>x. k \<le> x) s"

definition le_s :: "numeric \<Rightarrow> rat \<Rightarrow> bools" where
  "le_s s k = cmp (\<lambda>x. x \<le> k) s"

definition eq_s :: "numeric \<Rightarrow> rat \<Rightarrow> bools" where
  "eq_s s k = cmp (\<lambda>x. x = k) s"

text \<open>\<open>s.isin(ks)\<close>: null is in no list of numbers, and the result never holds a null.\<close>

fun isin :: "numeric \<Rightarrow> rat list \<Rightarrow> bools" where
  "isin (Numpy xs) ks = BNumpy (map (\<lambda>c. case c of None \<Rightarrow> False | Some x \<Rightarrow> x \<in> set ks) xs)"
| "isin (Masked xs) ks =
     BMasked (map (\<lambda>c. Some (case c of None \<Rightarrow> False | Some x \<Rightarrow> x \<in> set ks)) xs)"

text \<open>\<open>&\<close> and \<open>|\<close>: on nullable operands they follow Kleene's three-valued logic.\<close>

fun kand :: "bool option \<Rightarrow> bool option \<Rightarrow> bool option" where
  "kand (Some False) b = Some False"
| "kand a (Some False) = Some False"
| "kand (Some True) (Some True) = Some True"
| "kand a b = None"

fun kor :: "bool option \<Rightarrow> bool option \<Rightarrow> bool option" where
  "kor (Some True) b = Some True"
| "kor a (Some True) = Some True"
| "kor (Some False) (Some False) = Some False"
| "kor a b = None"

fun band :: "bools \<Rightarrow> bools \<Rightarrow> bools" where
  "band (BNumpy a) (BNumpy b) = BNumpy (map2 (\<and>) a b)"
| "band a b = BMasked (map2 kand (bvals a) (bvals b))"

fun bor :: "bools \<Rightarrow> bools \<Rightarrow> bools" where
  "bor (BNumpy a) (BNumpy b) = BNumpy (map2 (\<or>) a b)"
| "bor a b = BMasked (map2 kor (bvals a) (bvals b))"

text \<open>\<open>s.between(lo, hi)\<close> is \<open>(s >= lo) & (s <= hi)\<close>.\<close>

definition between :: "numeric \<Rightarrow> rat \<Rightarrow> rat \<Rightarrow> bools" where
  "between s lo hi = band (ge_s s lo) (le_s s hi)"

text \<open>
  \<open>b.astype(int)\<close> on a boolean series gives a numpy-backed series of 0 and 1; a nullable
  boolean series that holds a null cannot be cast and raises \<open>ValueError\<close>.
\<close>

definition flag01 :: "bool \<Rightarrow> rat option" where
  "flag01 b = Some (if b then 1 else 0)"

fun astype_int :: "bools \<Rightarrow> error + numeric" where
  "astype_int (BNumpy bs) = Inr (Numpy (map flag01 bs))"
| "astype_int (BMasked bs) =
     (if list_all (\<lambda>b. b \<noteq> None) bs then Inr (Numpy (map (\<lambda>b. flag01 (b = Some True)) bs))
      else Inl ValueError)"

section \<open>The period tagger\<close>

text \<open>
  \<open>_make_periods(df, year_col)\<close> of \<open>analysis/did_model.py\<close>. It works on a copy of its
  argument; \<open>df[year_col]\<close> raises \<open>KeyError\<close> when the column is absent.
\<close>

definition make_periods :: "(string \<Rightarrow> rat option) \<Rightarrow> string \<Rightarrow> frame \<Rightarrow> error + frame" where
  "make_periods parse year_col df =
     (case df year_col of
        None \<Rightarrow> Inl KeyError
      | Some c \<Rightarrow>
          let y = to_numeric parse c in
          (case astype_int (band (ge_s y 1994) (le_s y 2007)) of
             Inl e \<Rightarrow> Inl e
           | Inr p1 \<Rightarrow>
               (case astype_int (band (ge_s y 2008) (le_s y 2019)) of
                  Inl e \<Rightarrow> Inl e
                | Inr p2 \<Rightarrow>
                    (case astype_int (ge_s y 2020) of
                       Inl e \<Rightarrow> Inl e
                     | Inr p3 \<Rightarrow>
                         Inr (df(''P1'' \<mapsto> Numeric p1, ''P2'' \<mapsto> Numeric p2,
                                 ''P3'' \<mapsto> Numeric p3))))))"

text \<open>Reading row \<open>i\<close> of a numeric column of a table (\<open>None\<close>: no such cell, or a null).\<close>

definition cell_at :: "frame \<Rightarrow> string \<Rightarrow> nat \<Rightarrow> rat option" where
  "cell_at df c i =
     (case df c of
        Some (Numeric n) \<Rightarrow> (if i < length (nvals n) then nvals n ! i else None)
      | _ \<Rightarrow> None)"

text \<open>
  The rows of a column, and the number pandas reads in row \<open>i\<close> of a column (\<open>None\<close>: the
  cell is null or unparseable, or there is no such row).
\<close>

definition nrows :: "column \<Rightarrow> nat" where
  "nrows c = (case c of Object cs \<Rightarrow> length cs | Numeric n \<Rightarrow> length (nvals n))"

definition reading :: "(string \<Rightarrow> rat option) \<Rightarrow> column \<Rightarrow> nat \<Rightarrow> rat option" where
  "reading parse c i =
     (let xs = nvals (to_numeric parse c) in if i < length xs then xs ! i else None)"

definition is_masked :: "numeric \<Rightarrow> bool" where
  "is_masked n = (case n of Masked xs \<Rightarrow> True | Numpy xs \<Rightarrow> False)"

text \<open>A nullable integer column that holds a \<open>pd.NA\<close>.\<close>

definition holds_NA :: "column \<Rightarrow> bool" where
  "holds_NA c = (case c of Numeric (Masked xs) \<Rightarrow> list_ex (\<lambda>v. v = None) xs | _ \<Rightarrow> False)"

section \<open>The recoder\<close>

text \<open>
  \<open>fillna\<close>, \<open>==\<close> and \<open>isin\<close> on a stored column, which may be an object column: a string
  equals no number and is in no list of numbers.
\<close>

fun fillna_col :: "column \<Rightarrow> rat \<Rightarrow> column" where
  "fillna_col (Object cs) v = Object (map (\<lambda>c. case c of Missing \<Rightarrow> Number v | _ \<Rightarrow> c) cs)"
| "fillna_col (Numeric n) v = Numeric (fillna n v)"

fun eq_col :: "column \<Rightarrow> rat \<Rightarrow> bools" where
  "eq_col (Object cs) k = BNumpy (map (\<lambda>c. c = Number k) cs)"
| "eq_col (Numeric n) k = eq_s n k"

fun isin_col :: "column \<Rightarrow> rat list \<Rightarrow> bools" where
  "isin_col (Object cs) ks =
     BNumpy (map (\<lambda>c. case c of Number x \<Rightarrow> x \<in> set ks | _ \<Rightarrow> False) cs)"
| "isin_col (Numeric n) ks = isin n ks"

text \<open>
  The two loops of \<open>minimal_recode\<close>: every listed column that the table has is replaced
  by its nullable-integer reading. The result is the exception raised, if any, and the
  table as the statements executed so far have left it.
\<close>

fun recode_columns ::
  "(string \<Rightarrow> rat option) \<Rightarrow> string list \<Rightarrow> frame \<Rightarrow> error option \<times> frame" where
  "recode_columns parse [] df = (None, df)"
| "recode_columns parse (c # cs) df =
     (case df c of
        None \<Rightarrow> recode_columns parse cs df
      | Some col \<Rightarrow>
          (case astype_Int64 (to_numeric parse col) of
             Inl e \<Rightarrow> (Some e, df)
           | Inr n \<Rightarrow> recode_columns parse cs (df(c \<mapsto> Numeric n))))"

text \<open>
  \<open>IpumsCpsClient.minimal_recode(df)\<close> of \<open>data/ipums_cps.py\<close>, as a transformation of the
  table that \<open>df\<close> names: the function assigns to the columns of its argument.
\<close>

definition minimal_recode :: "(string \<Rightarrow> rat option) \<Rightarrow> frame \<Rightarrow> error option \<times> frame" where
  "minimal_recode parse df =
     (case recode_columns parse
             [''YEAR'', ''MONTH'', ''STATEFIP'', ''AGE'', ''SEX'', ''EDUC'', ''EMPSTAT''] df of
        (Some e, df1) \<Rightarrow> (Some e, df1)
      | (None, df1) \<Rightarrow>
          (case recode_columns parse
                  [''NCHILD'', ''NCHLT5'', ''MOMLOC'', ''POPLOC'', ''ABSENT'', ''WHYABSNT''] df1 of
             (Some e, df2) \<Rightarrow> (Some e, df2)
           | (None, df2) \<Rightarrow>
               (case df2 ''ABSENT'' of
                  None \<Rightarrow> (Some KeyError, df2)
                | Some absent \<Rightarrow>
                    (case df2 ''WHYABSNT'' of
                       None \<Rightarrow> (Some KeyError, df2)
                     | Some why \<Rightarrow>
                         (case astype_int
                                 (band (eq_col (fillna_col absent 0) 1) (isin_col why [10])) of
                            Inl e \<Rightarrow> (Some e, df2)
                          | Inr own \<Rightarrow> (None, df2(''own_ill_absent'' \<mapsto> Numeric own)))))))"

section \<open>The parent classifier\<close>

text \<open>
  \<open>make_parent_flags(df)\<close> of \<open>features/parent_flags.py\<close>, on the copy it makes of its
  argument. \<open>df.get(c)\<close> is \<open>None\<close> for an absent column; \<open>pd.to_numeric\<close> turns that
  into the scalar \<open>nan\<close>, which has no \<open>fillna\<close>: an \<open>AttributeError\<close>.
\<close>

definition make_parent_flags :: "(string \<Rightarrow> rat option) \<Rightarrow> frame \<Rightarrow> error + frame" where
  "make_parent_flags parse df =
     (case df ''NCHILD'' of
        None \<Rightarrow> Inl AttributeError
      | Some c1 \<Rightarrow>
     (case df ''MOMLOC'' of
        None \<Rightarrow> Inl AttributeError
      | Some c2 \<Rightarrow>
     (case df ''POPLOC'' of
        None \<Rightarrow> Inl AttributeError
      | Some c3 \<Rightarrow>
     (case df ''NCHLT5'' of
        None \<Rightarrow> Inl AttributeError
      | Some c4 \<Rightarrow>
          let nch = fillna (to_numeric parse c1) 0;
              momloc = fillna (to_numeric parse c2) 0;
              poploc = fillna (to_numeric parse c3) 0;
              nclt5 = fillna (to_numeric parse c4) 0
          in
          (case astype_int (bor (bor (gt_s nch 0) (gt_s momloc 0)) (gt_s poploc 0)) of
             Inl e \<Rightarrow> Inl e
           | Inr is_parent \<Rightarrow>
               (case astype_int (gt_s nclt5 0) of
                  Inl e \<Rightarrow> Inl e
                | Inr has_child_u5 \<Rightarrow>
                    Inr (df(''is_parent'' \<mapsto> Numeric is_parent,
                            ''has_child_u5'' \<mapsto> Numeric has_child_u5))))))))"

text \<open>
  The number read in row \<open>i\<close> of a column, a null or unparseable cell counting as 0.
\<close>

definition num0 :: "(string \<Rightarrow> rat option) \<Rightarrow> column \<Rightarrow> nat \<Rightarrow> rat" where
  "num0 parse c i = (case reading parse c i of None \<Rightarrow> 0 | Some x \<Rightarrow> x)"

section \<open>Tables as objects\<close>

text \<open>
  A caller holds a table by reference. The store maps each address to the table that
  lives there; addresses below \<open>next_id\<close> are in use. \<open>df.copy()\<close> allocates a new table
  with the same columns.
\<close>

record store =
  tables :: "nat \<Rightarrow> frame"
  next_id :: nat

definition copy :: "nat \<Rightarrow> store \<Rightarrow> nat \<times> store" where
  "copy r s =
     (next_id s, s\<lparr>tables := (tables s)(next_id s := tables s r), next_id := Suc (next_id s)\<rparr>)"

text \<open>
  \<open>minimal_recode\<close> has no \<open>df.copy()\<close>: it updates the table at the address it was given
  and returns that address. \<open>make_parent_flags\<close> starts with \<open>df = df.copy()\<close> and returns
  the address of the copy.
\<close>

definition minimal_recode_call ::
  "(string \<Rightarrow> rat option) \<Rightarrow> nat \<Rightarrow> store \<Rightarrow> (error + nat) \<times> store" where
  "minimal_recode_call parse r s =
     (case minimal_recode parse (tables s r) of
        (e, df') \<Rightarrow>
          ((case e of None \<Rightarrow> Inr r | Some x \<Rightarrow> Inl x), s\<lparr>tables := (tables s)(r := df')\<rparr>))"

definition make_parent_flags_call ::
  "(string \<Rightarrow> rat option) \<Rightarrow> nat \<Rightarrow> store \<Rightarrow> (error + nat) \<times> store" where
  "make_parent_flags_call parse r s =
     (case copy r s of
        (r', s1) \<Rightarrow>
          (case make_parent_flags parse (tables s1 r') of
             Inl e \<Rightarrow> (Inl e, s1)
           | Inr df' \<Rightarrow> (Inr r', s1\<lparr>tables := (tables s1)(r' := df')\<rparr>)))"

section \<open>The rate aggregator\<close>

text \<open>
  \<open>df.loc[keep]\<close>: the rows where the mask is true. pandas refuses a nullable mask that
  holds a null with a \<open>ValueError\<close>.
\<close>

fun mask_of :: "bools \<Rightarrow> error + bool list" where
  "mask_of (BNumpy bs) = Inr bs"
| "mask_of (BMasked bs) =
     (if list_all (\<lambda>b. b \<noteq> None) bs then Inr (map (\<lambda>b. b = Some True) bs)
      else Inl ValueError)"

definition select :: "bool list \<Rightarrow> 'a list \<Rightarrow> 'a list" where
  "select m xs = map snd (filter fst (zip m xs))"

fun loc_col :: "bool list \<Rightarrow> column \<Rightarrow> column" where
  "loc_col m (Object cs) = Object (select m cs)"
| "loc_col m (Numeric (Numpy xs)) = Numeric (Numpy (select m xs))"
| "loc_col m (Numeric (Masked xs)) = Numeric (Masked (select m xs))"

definition loc :: "bool list \<Rightarrow> frame \<Rightarrow> frame" where
  "loc m df = (\<lambda>c. map_option (loc_col m) (df c))"

text \<open>The cells of a column as values: group keys and the values that are averaged.\<close>

fun cells :: "column \<Rightarrow> cell list" where
  "cells (Object cs) = cs"
| "cells (Numeric n) = map (\<lambda>v. case v of None \<Rightarrow> Missing | Some x \<Rightarrow> Number x) (nvals n)"

type_synonym key = "cell \<times> cell \<times> cell"

text \<open>\<open>groupby\<close> drops a row whose key holds a null (\<open>dropna=True\<close> is the default).\<close>

definition has_null :: "key \<Rightarrow> bool" where
  "has_null k = (case k of (y, m, p) \<Rightarrow> y = Missing \<or> m = Missing \<or> p = Missing)"

text \<open>
  \<open>groupby\<close> emits the groups in ascending order of their keys (\<open>sort=True\<close> is the
  default), the keys compared component by component; in an object column numbers
  come before strings, and strings are compared character by character.
\<close>

fun str_le :: "string \<Rightarrow> string \<Rightarrow> bool" where
  "str_le [] t = True"
| "str_le (c # s) [] = False"
| "str_le (c # s) (d # t) =
     ((of_char c :: nat) < of_char d \<or> (c = d \<and> str_le s t))"

fun cell_le :: "cell \<Rightarrow> cell \<Rightarrow> bool" where
  "cell_le (Number x) (Number y) = (x \<le> y)"
| "cell_le (Number x) c = True"
| "cell_le (Text s) (Number y) = False"
| "cell_le (Text s) (Text t) = str_le s t"
| "cell_le (Text s) Missing = True"
| "cell_le Missing c = (c = Missing)"

fun key_le :: "key \<Rightarrow> key \<Rightarrow> bool" where
  "key_le (y, m, p) (y', m', p') =
     (if y \<noteq> y' then cell_le y y' else if m \<noteq> m' then cell_le m m' else cell_le p p')"

fun insert_key :: "key \<Rightarrow> key list \<Rightarrow> key list" where
  "insert_key k [] = [k]"
| "insert_key k (j # js) = (if key_le k j then k # j # js else j # insert_key k js)"

fun sort_keys :: "key list \<Rightarrow> key list" where
  "sort_keys [] = []"
| "sort_keys (k # ks) = insert_key k (sort_keys ks)"

text \<open>
  \<open>mean()\<close> of a group skips nulls; a group of nulls only has the mean \<open>NaN\<close>. A string
  among the values makes the aggregation fail with a \<open>TypeError\<close>.
\<close>

definition mean :: "rat list \<Rightarrow> rat option" where
  "mean xs = (if xs = [] then None else Some (sum_list xs / of_nat (length xs)))"

definition is_text :: "cell \<Rightarrow> bool" where
  "is_text c = (case c of Text s \<Rightarrow> True | _ \<Rightarrow> False)"

definition members :: "(key \<times> cell) list \<Rightarrow> key \<Rightarrow> cell list" where
  "members rows k = map snd (filter (\<lambda>r. fst r = k) rows)"

definition numbers :: "cell list \<Rightarrow> rat list" where
  "numbers vs = concat (map (\<lambda>c. case c of Number x \<Rightarrow> [x] | _ \<Rightarrow> []) vs)"

definition group_mean :: "(key \<times> cell) list \<Rightarrow> key \<Rightarrow> error + (key \<times> rat option)" where
  "group_mean rows k =
     (if list_ex is_text (members rows k) then Inl TypeError
      else Inr (k, mean (numbers (members rows k))))"

text \<open>Results in sequence: the first exception ends the evaluation.\<close>

fun collect :: "(error + 'a) list \<Rightarrow> error + 'a list" where
  "collect [] = Inr []"
| "collect (Inl e # rs) = Inl e"
| "collect (Inr x # rs) = (case collect rs of Inl e \<Rightarrow> Inl e | Inr xs \<Rightarrow> Inr (x # xs))"

text \<open>
  \<open>df.groupby(["YEAR", "MONTH", "is_parent"], as_index=False)["own_ill_absent"].mean()\<close>:
  a missing key column or value column is a \<open>KeyError\<close>.
\<close>

definition grouped_rows :: "column \<Rightarrow> column \<Rightarrow> column \<Rightarrow> column \<Rightarrow> (key \<times> cell) list" where
  "grouped_rows ys ms ps own =
     filter (\<lambda>r. \<not> has_null (fst r)) (zip (zip (cells ys) (zip (cells ms) (cells ps))) (cells own))"

definition groupby_mean :: "frame \<Rightarrow> error + (key \<times> rat option) list" where
  "groupby_mean df =
     (case df ''YEAR'' of
        None \<Rightarrow> Inl KeyError
      | Some ys \<Rightarrow>
     (case df ''MONTH'' of
        None \<Rightarrow> Inl KeyError
      | Some ms \<Rightarrow>
     (case df ''is_parent'' of
        None \<Rightarrow> Inl KeyError
      | Some ps \<Rightarrow>
     (case df ''own_ill_absent'' of
        None \<Rightarrow> Inl KeyError
      | Some own \<Rightarrow>
          let rows = grouped_rows ys ms ps own
          in collect (map (group_mean rows) (sort_keys (remdups (map fst rows))))))))"

text \<open>
  \<open>out.astype({"YEAR": int, "MONTH": int, "is_parent": int})\<close>: a number is truncated
  towards zero, a string goes through Python's \<open>int()\<close>.
\<close>

definition trunc :: "rat \<Rightarrow> int" where
  "trunc x = (if 0 \<le> x then \<lfloor>x\<rfloor> else \<lceil>x\<rceil>)"

fun cell_int :: "(string \<Rightarrow> int option) \<Rightarrow> cell \<Rightarrow> error + rat option" where
  "cell_int pyint (Number x) = Inr (Some (of_int (trunc x)))"
| "cell_int pyint (Text s) =
     (case pyint s of None \<Rightarrow> Inl ValueError | Some i \<Rightarrow> Inr (Some (of_int i)))"
| "cell_int pyint Missing = Inl ValueError"

definition astype_keys ::
  "(string \<Rightarrow> int option) \<Rightarrow> (key \<times> rat option) list \<Rightarrow> error + frame" where
  "astype_keys pyint groups =
     (case collect (map (\<lambda>g. cell_int pyint (fst (fst g))) groups) of
        Inl e \<Rightarrow> Inl e
      | Inr ys \<Rightarrow>
     (case collect (map (\<lambda>g. cell_int pyint (fst (snd (fst g)))) groups) of
        Inl e \<Rightarrow> Inl e
      | Inr ms \<Rightarrow>
     (case collect (map (\<lambda>g. cell_int pyint (snd (snd (fst g)))) groups) of
        Inl e \<Rightarrow> Inl e
      | Inr ps \<Rightarrow>
          Inr [''YEAR'' \<mapsto> Numeric (Numpy ys), ''MONTH'' \<mapsto> Numeric (Numpy ms),
               ''is_parent'' \<mapsto> Numeric (Numpy ps),
               ''rate'' \<mapsto> Numeric (Numpy (map snd groups))])))"

text \<open>\<open>_aggregate_monthly_rates(df)\<close> of \<open>features/parent_flags.py\<close>.\<close>

definition keep_mask :: "(string \<Rightarrow> rat option) \<Rightarrow> column \<Rightarrow> column \<Rightarrow> bools" where
  "keep_mask parse e a =
     (let emp = fillna (to_numeric parse e) 0;
          age = fillna (to_numeric parse a) 0
      in band (isin emp [10, 12]) (between age 25 49))"

definition aggregate_monthly_rates ::
  "(string \<Rightarrow> rat option) \<Rightarrow> (string \<Rightarrow> int option) \<Rightarrow> frame \<Rightarrow> error + frame" where
  "aggregate_monthly_rates parse pyint df =
     (case df ''EMPSTAT'' of
        None \<Rightarrow> Inl AttributeError
      | Some e \<Rightarrow>
     (case df ''AGE'' of
        None \<Rightarrow> Inl AttributeError
      | Some a \<Rightarrow>
     (case mask_of (keep_mask parse e a) of
        Inl err \<Rightarrow> Inl err
      | Inr keep \<Rightarrow>
     (case groupby_mean (loc keep df) of
        Inl err \<Rightarrow> Inl err
      | Inr groups \<Rightarrow> astype_keys pyint groups))))"

section \<open>Example tables\<close>

text \<open>A reading of the strings that occur in the examples.\<close>

definition ex_parse :: "string \<Rightarrow> rat option" where
  "ex_parse = [''1'' \<mapsto> 1, ''10'' \<mapsto> 10, ''2008'' \<mapsto> 2008]"

definition ex_pyint :: "string \<Rightarrow> int option" where
  "ex_pyint = [''1'' \<mapsto> 1, ''10'' \<mapsto> 10, ''2008'' \<mapsto> 2008]"

definition ex_years :: frame where
  "ex_years =
     [''YEAR'' \<mapsto> Object [Number 2007, Text ''2008'', Number 2020, Number 1993, Text ''n/a'', Missing]]"

definition ex_years_NA :: frame where
  "ex_years_NA = [''YEAR'' \<mapsto> Numeric (Masked [Some 2007, None])]"

text \<open>
  A raw extract of four person-months; the second lacks the \<open>WHYABSNT\<close> column, the third
  holds a fractional age.
\<close>

definition ex_raw :: frame where
  "ex_raw =
     [''YEAR'' \<mapsto> Object [Number 2007, Number 2007, Text ''2008'', Number 2020],
      ''MONTH'' \<mapsto> Object [Number 3, Number 3, Number 3, Number 4],
      ''AGE'' \<mapsto> Object [Number 30, Number 41, Text ''n/a'', Number 35],
      ''EMPSTAT'' \<mapsto> Object [Number 10, Number 12, Number 10, Missing],
      ''NCHILD'' \<mapsto> Object [Number 0, Number 2, Text ''n/a'', Number 0],
      ''NCHLT5'' \<mapsto> Object [Number 0, Number 1, Missing, Number 0],
      ''MOMLOC'' \<mapsto> Object [Number 0, Number 0, Number 0, Number 1],
      ''POPLOC'' \<mapsto> Object [Number 0, Number 0, Number 0, Missing],
      ''ABSENT'' \<mapsto> Object [Number 1, Text ''1'', Number 1, Text ''n/a''],
      ''WHYABSNT'' \<mapsto> Object [Text ''10'', Number 5, Missing, Number 10]]"



text \<open>A store that holds the raw extract at address 0.\<close>

definition ex_store :: store where
  "ex_store = \<lparr>tables = (\<lambda>r. if r = 0 then ex_raw else Map.empty), next_id = 1\<rparr>"

text \<open>
  A flagged table of six person-months. Rows 0 to 3 are eligible; row 4 has no employment
  status and row 5 is aged 60.
\<close>

definition ex_flagged :: frame where
  "ex_flagged =
     [''YEAR'' \<mapsto> Numeric (Masked [Some 2020, Some 2007, Some 2007, Some 2007, Some 2020, Some 2021]),
      ''MONTH'' \<mapsto> Numeric (Masked [Some 4, Some 3, Some 3, Some 3, Some 4, Some 1]),
      ''is_parent'' \<mapsto> Numeric (Numpy [Some 1, Some 1, Some 0, Some 1, Some 1, Some 0]),
      ''own_ill_absent'' \<mapsto> Numeric (Numpy [Some 1, Some 1, Some 0, Some 0, Some 0, Some 1]),
      ''EMPSTAT'' \<mapsto> Numeric (Masked [Some 10, Some 12, Some 10, Some 10, None, Some 10]),
      ''AGE'' \<mapsto> Numeric (Masked [Some 35, Some 41, Some 30, Some 49, Some 30, Some 60])]"

text \<open>A table with the fractional year 2007.5.\<close>

definition ex_half_year :: frame where
  "ex_half_year = [''YEAR'' \<mapsto> Numeric (Numpy [Some (4015 / 2)])]"

section \<open>Notions used to state the properties of the recoder\<close>

text \<open>The nullable integer column that the recoder stores for a column.\<close>

definition recoded :: "(string \<Rightarrow> rat option) \<Rightarrow> column \<Rightarrow> column" where
  "recoded parse col = Numeric (Masked (nvals (to_numeric parse col)))"

text \<open>
  A numeric series of nulls and whole numbers that fit in 64 bits, or one that is a
  nullable integer series already.
\<close>

definition integral :: "numeric \<Rightarrow> bool" where
  "integral n =
     (case n of
        Numpy xs \<Rightarrow> list_all (\<lambda>v. case v of None \<Rightarrow> True | Some x \<Rightarrow> int64 x) xs
      | Masked xs \<Rightarrow> True)"

definition recoded_columns :: "string list" where
  "recoded_columns =
     [''YEAR'', ''MONTH'', ''STATEFIP'', ''AGE'', ''SEX'', ''EDUC'', ''EMPSTAT'',
      ''NCHILD'', ''NCHLT5'', ''MOMLOC'', ''POPLOC'', ''ABSENT'', ''WHYABSNT'']"

text \<open>
  Every listed column that the table has reads as nulls and whole numbers that fit in 64
  bits: the tables on which the casts of the recoder are safe.
\<close>

definition all_integral :: "(string \<Rightarrow> rat option) \<Rightarrow> frame \<Rightarrow> bool" where
  "all_integral parse df =
     list_all (\<lambda>c. case df c of None \<Rightarrow> True | Some col \<Rightarrow> integral (to_numeric parse col))
       recoded_columns"


text \<open>The flag of a row, from the readings of its \<open>ABSENT\<close> and \<open>WHYABSNT\<close> cells.\<close>

definition own_ill :: "rat option \<Rightarrow> rat option \<Rightarrow> rat option" where
  "own_ill a w = flag01 (a = Some 1 \<and> w = Some 10)"

section \<open>Notions used to state the properties of the rate aggregator\<close>

text \<open>
  Row \<open>i\<close> passes the eligibility filter: its employment status, read as a number with a
  null or unparseable cell counting as 0, is 10 or 12, and its age, read likewise, lies
  in \<open>[25, 49]\<close>.
\<close>

definition eligible :: "(string \<Rightarrow> rat option) \<Rightarrow> column \<Rightarrow> column \<Rightarrow> nat \<Rightarrow> bool" where
  "eligible parse e a i =
     (num0 parse e i \<in> {10, 12} \<and> 25 \<le> num0 parse a i \<and> num0 parse a i \<le> 49)"

text \<open>The (year, month, is_parent) key of row \<open>i\<close>.\<close>

definition row_key :: "column \<Rightarrow> column \<Rightarrow> column \<Rightarrow> nat \<Rightarrow> key" where
  "row_key ys ms ps i = (cells ys ! i, cells ms ! i, cells ps ! i)"

text \<open>The eligible rows of a table of \<open>n\<close> rows that have the key \<open>k\<close>.\<close>

definition group_rows ::
  "(string \<Rightarrow> rat option) \<Rightarrow> column \<Rightarrow> column \<Rightarrow> column \<Rightarrow> column \<Rightarrow> column \<Rightarrow> nat \<Rightarrow> key
     \<Rightarrow> nat list" where
  "group_rows parse e a ys ms ps n k =
     filter (\<lambda>i. eligible parse e a i \<and> row_key ys ms ps i = k) [0..<n]"

text \<open>
  A flagged table of \<open>n\<close> rows: it has the six columns the aggregator reads, each of \<open>n\<close>
  rows; the key columns hold numbers or nulls, and \<open>own_ill_absent\<close> holds 0 and 1.
\<close>

definition aggregator_columns :: "string list" where
  "aggregator_columns =
     [''EMPSTAT'', ''AGE'', ''YEAR'', ''MONTH'', ''is_parent'', ''own_ill_absent'']"

definition flagged :: "frame \<Rightarrow> nat \<Rightarrow> bool" where
  "flagged df n =
     (list_all (\<lambda>c. case df c of None \<Rightarrow> False | Some col \<Rightarrow> nrows col = n) aggregator_columns
      \<and> list_all (\<lambda>c. case df c of None \<Rightarrow> False
                        | Some col \<Rightarrow> list_all (\<lambda>x. \<not> is_text x) (cells col))
          [''YEAR'', ''MONTH'', ''is_parent'']
      \<and> (case df ''own_ill_absent'' of
            None \<Rightarrow> False
          | Some col \<Rightarrow> list_all (\<lambda>x. x = Number 0 \<or> x = Number 1) (cells col)))"

text \<open>A column with the cell of row \<open>i\<close> replaced by a number or a null.\<close>

fun poke :: "column \<Rightarrow> nat \<Rightarrow> rat option \<Rightarrow> column" where
  "poke (Object cs) i v = Object (cs[i := (case v of None \<Rightarrow> Missing | Some x \<Rightarrow> Number x)])"
| "poke (Numeric (Numpy xs)) i v = Numeric (Numpy (xs[i := v]))"
| "poke (Numeric (Masked xs)) i v = Numeric (Masked (xs[i := v]))"


text \<open>
  The rows that are grouped, each as its key and its \<open>own_ill_absent\<close> cell: the eligible
  rows whose key holds no null.
\<close>

definition kept_rows ::
  "(string \<Rightarrow> rat option) \<Rightarrow> column \<Rightarrow> column \<Rightarrow> column \<Rightarrow> column \<Rightarrow> column \<Rightarrow> column \<Rightarrow> nat
     \<Rightarrow> (key \<times> cell) list" where
  "kept_rows parse e a ys ms ps own n =
     map (\<lambda>i. (row_key ys ms ps i, cells own ! i))
       (filter (\<lambda>i. eligible parse e a i \<and> \<not> has_null (row_key ys ms ps i)) [0..<n])"

section \<open>Facts about the series operations\<close>

lemma length_to_numeric [simp]: "length (nvals (to_numeric parse c)) = nrows c"
  by (cases c) (auto simp: nrows_def)

lemma kand_Some [simp]: "kand (Some a) (Some b) = Some (a \<and> b)"
  by (cases a; cases b) simp_all

lemma kor_Some [simp]: "kor (Some a) (Some b) = Some (a \<or> b)"
  by (cases a; cases b) simp_all

lemma bvals_cmp:
  "bvals (cmp p n) =
     map (\<lambda>c. case c of None \<Rightarrow> (if is_masked n then None else Some False) | Some x \<Rightarrow> Some (p x))
       (nvals n)"
  by (cases n) (auto simp: is_masked_def split: option.splits)

lemma bvals_band: "bvals (band a b) = map2 kand (bvals a) (bvals b)"
proof (cases a; cases b)
  fix xs ys assume "a = BNumpy xs" "b = BNumpy ys"
  then show ?thesis
    by (simp add: zip_map_map split_def)
qed simp_all

lemma bvals_bor: "bvals (bor a b) = map2 kor (bvals a) (bvals b)"
proof (cases a; cases b)
  fix xs ys assume "a = BNumpy xs" "b = BNumpy ys"
  then show ?thesis
    by (simp add: zip_map_map split_def)
qed simp_all

lemma astype_int_bvals:
  "astype_int b =
     (if list_all (\<lambda>v. v \<noteq> None) (bvals b)
      then Inr (Numpy (map (\<lambda>v. flag01 (v = Some True)) (bvals b))) else Inl ValueError)"
  by (cases b) (auto simp: list_all_iff comp_def)

lemma astype_int_Inr:
  "astype_int b = Inr n \<Longrightarrow> n = Numpy (map (\<lambda>v. flag01 (v = Some True)) (bvals b))"
  by (simp add: astype_int_bvals split: if_splits)

lemma whole_cases:
  assumes "whole y"
  obtains k :: int where "y = of_int k"
  using assms unfolding whole_def by metis

lemma list_all_known: "list_all (\<lambda>v. \<exists>y. v = Some y) xs \<longleftrightarrow> None \<notin> set xs"
proof (induction xs)
  case Nil
  show ?case by simp
next
  case (Cons a xs)
  then show ?case by (cases a) auto
qed

lemma astype_int_known:
  "astype_int b =
     (if None \<in> set (bvals b) then Inl ValueError
      else Inr (Numpy (map (\<lambda>v. flag01 (v = Some True)) (bvals b))))"
  by (simp add: astype_int_bvals list_all_known)

lemma mask_of_known:
  "mask_of b =
     (if None \<in> set (bvals b) then Inl ValueError else Inr (map (\<lambda>v. v = Some True) (bvals b)))"
  by (cases b) (auto simp: list_all_known comp_def)

lemma no_null_cmp:
  assumes "\<not> holds_NA c"
  shows "None \<notin> set (bvals (cmp p (to_numeric parse c)))"
proof (cases "to_numeric parse c")
  case (Numpy xs)
  then show ?thesis
    by auto
next
  case (Masked xs)
  then have "c = Numeric (Masked xs)"
    by (cases c) auto
  with assms have "None \<notin> set xs"
    by (auto simp: holds_NA_def list_ex_iff)
  with Masked show ?thesis
    by auto
qed

lemma no_null_kand:
  assumes "None \<notin> set xs" and "None \<notin> set ys"
  shows "None \<notin> set (map2 kand xs ys)"
proof
  assume "None \<in> set (map2 kand xs ys)"
  then obtain a b where ab: "(a, b) \<in> set (zip xs ys)" and k: "kand a b = None"
    by (auto simp: image_iff)
  from ab have "a \<in> set xs" and "b \<in> set ys"
    by (auto dest: set_zip_leftD set_zip_rightD)
  with assms obtain a' b' where "a = Some a'" and "b = Some b'"
    by (cases a; cases b) auto
  with k show False
    by simp
qed

lemma no_null_kor:
  assumes "None \<notin> set xs" and "None \<notin> set ys"
  shows "None \<notin> set (map2 kor xs ys)"
proof
  assume "None \<in> set (map2 kor xs ys)"
  then obtain a b where ab: "(a, b) \<in> set (zip xs ys)" and k: "kor a b = None"
    by (auto simp: image_iff)
  from ab have "a \<in> set xs" and "b \<in> set ys"
    by (auto dest: set_zip_leftD set_zip_rightD)
  with assms obtain a' b' where "a = Some a'" and "b = Some b'"
    by (cases a; cases b) auto
  with k show False
    by simp
qed


section \<open>The period tagger: the indicators of a row\<close>

text \<open>The indicators of a row, on a table on which the tagger returns.\<close>

lemma make_periods_row:
  assumes ret: "make_periods parse year_col df = Inr out"
    and col: "df year_col = Some c"
    and yr: "reading parse c i = Some y"
  shows "cell_at out ''P1'' i = Some (if 1994 \<le> y \<and> y \<le> 2007 then 1 else 0)
       \<and> cell_at out ''P2'' i = Some (if 2008 \<le> y \<and> y \<le> 2019 then 1 else 0)
       \<and> cell_at out ''P3'' i = Some (if 2020 \<le> y then 1 else 0)
       \<and> (whole y \<and> 1994 \<le> y \<longrightarrow>
            length (filter (\<lambda>v. v = Some 1)
              [cell_at out ''P1'' i, cell_at out ''P2'' i, cell_at out ''P3'' i]) = 1)
       \<and> (y < 1994 \<longrightarrow>
            cell_at out ''P1'' i = Some 0 \<and> cell_at out ''P2'' i = Some 0
            \<and> cell_at out ''P3'' i = Some 0)"
proof -
  define ys where "ys = to_numeric parse c"
  have i: "i < length (nvals ys)" and yi: "nvals ys ! i = Some y"
    using yr by (auto simp: reading_def ys_def Let_def split: if_splits)
  obtain p1 p2 p3 where
    p1: "astype_int (band (ge_s ys 1994) (le_s ys 2007)) = Inr p1" and
    p2: "astype_int (band (ge_s ys 2008) (le_s ys 2019)) = Inr p2" and
    p3: "astype_int (ge_s ys 2020) = Inr p3" and
    out: "out = df(''P1'' \<mapsto> Numeric p1, ''P2'' \<mapsto> Numeric p2, ''P3'' \<mapsto> Numeric p3)"
    using ret col by (auto simp: make_periods_def ys_def Let_def split: sum.splits)
  have v1: "nvals p1 ! i = Some (if 1994 \<le> y \<and> y \<le> 2007 then 1 else 0)" "i < length (nvals p1)"
    using astype_int_Inr[OF p1] i yi
    by (auto simp: bvals_band bvals_cmp ge_s_def le_s_def flag01_def)
  have v2: "nvals p2 ! i = Some (if 2008 \<le> y \<and> y \<le> 2019 then 1 else 0)" "i < length (nvals p2)"
    using astype_int_Inr[OF p2] i yi
    by (auto simp: bvals_band bvals_cmp ge_s_def le_s_def flag01_def)
  have v3: "nvals p3 ! i = Some (if 2020 \<le> y then 1 else 0)" "i < length (nvals p3)"
    using astype_int_Inr[OF p3] i yi
    by (auto simp: bvals_cmp ge_s_def flag01_def)
  have c1: "cell_at out ''P1'' i = Some (if 1994 \<le> y \<and> y \<le> 2007 then 1 else 0)"
    unfolding out using v1 by (simp add: cell_at_def)
  have c2: "cell_at out ''P2'' i = Some (if 2008 \<le> y \<and> y \<le> 2019 then 1 else 0)"
    unfolding out using v2 by (simp add: cell_at_def)
  have c3: "cell_at out ''P3'' i = Some (if 2020 \<le> y then 1 else 0)"
    unfolding out using v3 by (simp add: cell_at_def)
  have one: "length (filter (\<lambda>v. v = Some 1)
      [cell_at out ''P1'' i, cell_at out ''P2'' i, cell_at out ''P3'' i]) = 1"
    if w: "whole y" and lo: "1994 \<le> y"
  proof -
    obtain k :: int where k: "y = of_int k"
      using w by (rule whole_cases)
    have k94: "1994 \<le> k" using lo k by simp
    then consider "k \<le> 2007" | "2008 \<le> k" "k \<le> 2019" | "2020 \<le> k"
      by linarith
    then show ?thesis
      using k94 by cases (simp_all add: c1 c2 c3 k)
  qed
  have below: "cell_at out ''P1'' i = Some 0 \<and> cell_at out ''P2'' i = Some 0
      \<and> cell_at out ''P3'' i = Some 0" if "y < 1994"
    using that by (simp add: c1 c2 c3)
  show ?thesis
    using c1 c2 c3 one below by blast
qed

text \<open>
  The tagger returns on every table whose year column is not a nullable integer column
  that holds a null.
\<close>

lemma make_periods_returns:
  assumes col: "df year_col = Some c"
    and na: "\<not> holds_NA c"
  shows "\<exists>out. make_periods parse year_col df = Inr out"
proof -
  define ys where "ys = to_numeric parse c"
  define b1 where "b1 = band (ge_s ys 1994) (le_s ys 2007)"
  define b2 where "b2 = band (ge_s ys 2008) (le_s ys 2019)"
  define b3 where "b3 = ge_s ys 2020"
  have n1: "None \<notin> set (bvals b1)"
    unfolding b1_def ge_s_def le_s_def ys_def bvals_band
    by (intro no_null_kand no_null_cmp na)
  have n2: "None \<notin> set (bvals b2)"
    unfolding b2_def ge_s_def le_s_def ys_def bvals_band
    by (intro no_null_kand no_null_cmp na)
  have n3: "None \<notin> set (bvals b3)"
    unfolding b3_def ge_s_def ys_def by (intro no_null_cmp na)
  obtain p1 p2 p3 where "astype_int b1 = Inr p1" "astype_int b2 = Inr p2" "astype_int b3 = Inr p3"
    using n1 n2 n3 by (simp add: astype_int_known)
  then show ?thesis
    using col
    by (simp add: make_periods_def Let_def ys_def[symmetric] b1_def[symmetric]
        b2_def[symmetric] b3_def[symmetric])
qed

text \<open>
  Claim C2, as amended. On a table whose year column is not a nullable integer column
  that holds a null, \<open>_make_periods\<close> returns, and a row whose year reads as the number \<open>y\<close>
  gets \<open>P1 = 1\<close> if \<open>1994 \<le> y \<le> 2007\<close> and \<open>P1 = 0\<close> otherwise, \<open>P2 = 1\<close> if
  \<open>2008 \<le> y \<le> 2019\<close> and \<open>0\<close> otherwise, \<open>P3 = 1\<close> if \<open>2020 \<le> y\<close> and \<open>0\<close> otherwise. For
  a year that is a whole number and at least 1994, exactly one of the three is 1; for a
  year below 1994 all three are 0.
\<close>

theorem make_periods_indicators:
  assumes col: "df year_col = Some c"
    and na: "\<not> holds_NA c"
    and yr: "reading parse c i = Some y"
  shows "\<exists>out. make_periods parse year_col df = Inr out
       \<and> cell_at out ''P1'' i = Some (if 1994 \<le> y \<and> y \<le> 2007 then 1 else 0)
       \<and> cell_at out ''P2'' i = Some (if 2008 \<le> y \<and> y \<le> 2019 then 1 else 0)
       \<and> cell_at out ''P3'' i = Some (if 2020 \<le> y then 1 else 0)
       \<and> (whole y \<and> 1994 \<le> y \<longrightarrow>
            length (filter (\<lambda>v. v = Some 1)
              [cell_at out ''P1'' i, cell_at out ''P2'' i, cell_at out ''P3'' i]) = 1)
       \<and> (y < 1994 \<longrightarrow>
            cell_at out ''P1'' i = Some 0 \<and> cell_at out ''P2'' i = Some 0
            \<and> cell_at out ''P3'' i = Some 0)"
proof -
  from make_periods_returns[where df = df and year_col = year_col and parse = parse, OF col na]
  obtain out where
    ret: "make_periods parse year_col df = Inr out"
    by blast
  from make_periods_row[OF ret col yr] ret show ?thesis
    by blast
qed

theorem make_periods_indicators_witness:
  "ex_years ''YEAR'' \<noteq> None \<and> \<not> holds_NA (the (ex_years ''YEAR''))
   \<and> (\<exists>out. make_periods ex_parse ''YEAR'' ex_years = Inr out
     \<and> cell_at out ''P1'' 0 = Some 1 \<and> cell_at out ''P2'' 0 = Some 0 \<and> cell_at out ''P3'' 0 = Some 0
     \<and> cell_at out ''P1'' 1 = Some 0 \<and> cell_at out ''P2'' 1 = Some 1 \<and> cell_at out ''P3'' 1 = Some 0
     \<and> cell_at out ''P1'' 2 = Some 0 \<and> cell_at out ''P2'' 2 = Some 0 \<and> cell_at out ''P3'' 2 = Some 1
     \<and> cell_at out ''P1'' 3 = Some 0 \<and> cell_at out ''P2'' 3 = Some 0 \<and> cell_at out ''P3'' 3 = Some 0
     \<and> length (filter (\<lambda>v. v = Some 1)
          [cell_at out ''P1'' 2, cell_at out ''P2'' 2, cell_at out ''P3'' 2]) = 1)"
proof -
  define c where "c = Object [Number 2007, Text ''2008'', Number 2020, Number 1993, Text ''n/a'', Missing]"
  have col: "ex_years ''YEAR'' = Some c"
    by (simp add: ex_years_def c_def)
  have na: "\<not> holds_NA c"
    by (simp add: holds_NA_def c_def)
  have y0: "reading ex_parse c 0 = Some 2007" and y1: "reading ex_parse c 1 = Some 2008"
    and y2: "reading ex_parse c 2 = Some 2020" and y3: "reading ex_parse c 3 = Some 1993"
    by (simp_all add: reading_def c_def ex_parse_def)
  have w: "whole 2020"
    by (simp add: whole_def)
  note inst = make_periods_indicators[where df = ex_years and year_col = "''YEAR''"
      and parse = ex_parse, OF col na]
  from inst[OF y0] obtain out where ret: "make_periods ex_parse ''YEAR'' ex_years = Inr out"
    and r0: "cell_at out ''P1'' 0 = Some 1 \<and> cell_at out ''P2'' 0 = Some 0 \<and> cell_at out ''P3'' 0 = Some 0"
    by auto
  from inst[OF y1] ret
  have r1: "cell_at out ''P1'' 1 = Some 0 \<and> cell_at out ''P2'' 1 = Some 1 \<and> cell_at out ''P3'' 1 = Some 0"
    by auto
  from inst[OF y2] ret w
  have r2: "cell_at out ''P1'' 2 = Some 0 \<and> cell_at out ''P2'' 2 = Some 0 \<and> cell_at out ''P3'' 2 = Some 1
     \<and> length (filter (\<lambda>v. v = Some 1)
          [cell_at out ''P1'' 2, cell_at out ''P2'' 2, cell_at out ''P3'' 2]) = 1"
    by auto
  from inst[OF y3] ret
  have r3: "cell_at out ''P1'' 3 = Some 0 \<and> cell_at out ''P2'' 3 = Some 0 \<and> cell_at out ''P3'' 3 = Some 0"
    by auto
  show ?thesis
    using col na ret r0 r1 r2 r3 by auto
qed

text \<open>
  The claim as stated fails twice. On a nullable integer year column that holds a null
  the tagger raises \<open>ValueError\<close>, so the row with the year 2007 gets no indicators; and
  the row with the year 2007.5, which is at least 1994, gets \<open>P1 = P2 = P3 = 0\<close>.
\<close>

theorem make_periods_indicators_counterexample:
  "ex_years_NA ''YEAR'' = Some (Numeric (Masked [Some 2007, None]))
   \<and> reading ex_parse (Numeric (Masked [Some 2007, None])) 0 = Some 2007
   \<and> make_periods ex_parse ''YEAR'' ex_years_NA = Inl ValueError
   \<and> reading ex_parse (Numeric (Numpy [Some (4015 / 2)])) 0 = Some (4015 / 2)
   \<and> make_periods ex_parse ''YEAR'' ex_half_year
       = Inr (ex_half_year(''P1'' \<mapsto> Numeric (Numpy [Some 0]), ''P2'' \<mapsto> Numeric (Numpy [Some 0]),
                ''P3'' \<mapsto> Numeric (Numpy [Some 0])))"
  by (simp add: make_periods_def ex_years_NA_def ex_half_year_def ge_s_def le_s_def reading_def
      flag01_def)


section \<open>The period tagger: rows without a year\<close>






section \<open>The recoder: the coercion loops\<close>

lemma astype_Int64_Inr: "astype_Int64 n = Inr n' \<Longrightarrow> n' = Masked (nvals n)"
  by (cases n) (auto split: if_splits)

lemma astype_Int64_error: "astype_Int64 n = Inl e \<Longrightarrow> e = TypeError"
  by (cases n) (auto split: if_splits)

lemma astype_Int64_integral: "(\<exists>n'. astype_Int64 n = Inr n') \<longleftrightarrow> integral n"
  by (cases n) (auto simp: integral_def)

lemma recode_columns_error:
  "recode_columns parse cs df = (Some e, df') \<Longrightarrow> e = TypeError"
proof (induction cs arbitrary: df)
  case Nil
  then show ?case by simp
next
  case (Cons c cs)
  then show ?case
    by (auto split: option.splits sum.splits dest: astype_Int64_error)
qed

lemma recode_columns_result:
  "recode_columns parse cs df = (None, df') \<Longrightarrow>
     df' c = (if c \<in> set cs then map_option (recoded parse) (df c) else df c)"
proof (induction cs arbitrary: df)
  case Nil
  then show ?case by simp
next
  case (Cons a cs)
  show ?case
  proof (cases "df a")
    case None
    with Cons.prems have "recode_columns parse cs df = (None, df')"
      by simp
    from Cons.IH[OF this] None show ?thesis
      by auto
  next
    case (Some col)
    with Cons.prems obtain n where n: "astype_Int64 (to_numeric parse col) = Inr n"
      and rest: "recode_columns parse cs (df(a \<mapsto> Numeric n)) = (None, df')"
      by (auto split: sum.splits)
    have n': "Numeric n = recoded parse col"
      using astype_Int64_Inr[OF n] by (simp add: recoded_def)
    have again: "recoded parse (recoded parse col) = recoded parse col"
      by (simp add: recoded_def)
    from Cons.IH[OF rest] Some n' again show ?thesis
      by auto
  qed
qed

lemma recode_columns_succeeds:
  "(\<exists>df'. recode_columns parse cs df = (None, df')) \<longleftrightarrow>
     (\<forall>c\<in>set cs. \<forall>col. df c = Some col \<longrightarrow> integral (to_numeric parse col))"
proof (induction cs arbitrary: df)
  case Nil
  show ?case by simp
next
  case (Cons a cs)
  show ?case
  proof (cases "df a")
    case None
    then show ?thesis
      using Cons.IH[of df] by auto
  next
    case (Some col)
    show ?thesis
    proof (cases "astype_Int64 (to_numeric parse col)")
      case (Inl e)
      then have "\<not> integral (to_numeric parse col)"
        using astype_Int64_integral[of "to_numeric parse col"] by auto
      with Some Inl show ?thesis
        by auto
    next
      case (Inr n)
      then have int: "integral (to_numeric parse col)"
        using astype_Int64_integral[of "to_numeric parse col"] by auto
      have n: "n = Masked (nvals (to_numeric parse col))"
        using astype_Int64_Inr[OF Inr] .
      have same: "(\<forall>c\<in>set cs. \<forall>col'. (df(a \<mapsto> Numeric n)) c = Some col' \<longrightarrow>
                     integral (to_numeric parse col'))
               \<longleftrightarrow> (\<forall>c\<in>set cs. \<forall>col'. df c = Some col' \<longrightarrow> integral (to_numeric parse col'))"
        using Some int n by (auto simp: integral_def)
      have "(\<exists>df'. recode_columns parse (a # cs) df = (None, df'))
              \<longleftrightarrow> (\<exists>df'. recode_columns parse cs (df(a \<mapsto> Numeric n)) = (None, df'))"
        using Some Inr by simp
      also have "\<dots> \<longleftrightarrow> (\<forall>c\<in>set cs. \<forall>col'. (df(a \<mapsto> Numeric n)) c = Some col' \<longrightarrow>
                     integral (to_numeric parse col'))"
        by (rule Cons.IH)
      also have "\<dots> \<longleftrightarrow> (\<forall>c\<in>set cs. \<forall>col'. df c = Some col' \<longrightarrow>
                     integral (to_numeric parse col'))"
        by (rule same)
      also have "\<dots> \<longleftrightarrow> (\<forall>c\<in>set (a # cs). \<forall>col'. df c = Some col' \<longrightarrow>
                     integral (to_numeric parse col'))"
        using Some int by auto
      finally show ?thesis .
    qed
  qed
qed

lemma recode_columns_fixed:
  assumes "\<forall>c\<in>set cs. \<forall>col. df c = Some col \<longrightarrow> (\<exists>xs. col = Numeric (Masked xs))"
  shows "recode_columns parse cs df = (None, df)"
  using assms
proof (induction cs)
  case Nil
  show ?case by simp
next
  case (Cons a cs)
  show ?case
  proof (cases "df a")
    case None
    with Cons show ?thesis by simp
  next
    case (Some col)
    with Cons.prems obtain xs where "col = Numeric (Masked xs)"
      by auto
    with Some have "df(a \<mapsto> Numeric (Masked xs)) = df"
      by (simp add: fun_upd_idem)
    with Some \<open>col = Numeric (Masked xs)\<close> Cons show ?thesis
      by simp
  qed
qed


lemma recode_columns_append:
  "recode_columns parse (xs @ ys) df =
     (case recode_columns parse xs df of
        (Some e, d) \<Rightarrow> (Some e, d)
      | (None, d) \<Rightarrow> recode_columns parse ys d)"
  by (induction xs arbitrary: df) (auto split: option.splits sum.splits)

lemma all_integral_iff:
  "all_integral parse df \<longleftrightarrow>
     (\<forall>c\<in>set recoded_columns. \<forall>col. df c = Some col \<longrightarrow> integral (to_numeric parse col))"
  by (auto simp: all_integral_def list_all_iff split: option.splits)

lemma own_ill_value:
  "astype_int (band (eq_col (fillna_col (recoded parse a) 0) 1) (isin_col (recoded parse w) [10]))
     = Inr (Numpy (map2 own_ill (nvals (to_numeric parse a)) (nvals (to_numeric parse w))))"
proof -
  define xa where "xa = nvals (to_numeric parse a)"
  define xw where "xw = nvals (to_numeric parse w)"
  define ba where "ba = map (\<lambda>v. Some (v = Some (1::rat))) xa"
  define bw where "bw = map (\<lambda>v. Some (v = Some (10::rat))) xw"
  have ea: "bvals (eq_col (fillna_col (recoded parse a) 0) 1) = ba"
    by (auto simp: recoded_def eq_s_def bvals_cmp is_masked_def xa_def ba_def
        split: option.splits)
  have ew: "bvals (isin_col (recoded parse w) [10]) = bw"
    by (auto simp: recoded_def xw_def bw_def split: option.splits)
  have both: "map2 kand ba bw = map2 (\<lambda>x y. Some (x = Some 1 \<and> y = Some 10)) xa xw"
    by (simp add: ba_def bw_def zip_map_map split_def)
  have known: "None \<notin> set (map2 kand ba bw)"
    unfolding both by auto
  have vals: "bvals (band (eq_col (fillna_col (recoded parse a) 0) 1)
      (isin_col (recoded parse w) [10])) = map2 kand ba bw"
    by (simp only: bvals_band ea ew)
  have cast: "map (\<lambda>v. flag01 (v = Some True)) (map2 kand ba bw) = map2 own_ill xa xw"
    unfolding both by (simp add: own_ill_def split_def)
  show ?thesis
    unfolding astype_int_known vals cast xa_def[symmetric] xw_def[symmetric]
    using known by (simp only: if_False)
qed

lemma minimal_recode_unfold:
  "minimal_recode parse df =
     (case recode_columns parse recoded_columns df of
        (Some e, df2) \<Rightarrow> (Some e, df2)
      | (None, df2) \<Rightarrow>
          (case df2 ''ABSENT'' of
             None \<Rightarrow> (Some KeyError, df2)
           | Some absent \<Rightarrow>
               (case df2 ''WHYABSNT'' of
                  None \<Rightarrow> (Some KeyError, df2)
                | Some why \<Rightarrow>
                    (case astype_int
                            (band (eq_col (fillna_col absent 0) 1) (isin_col why [10])) of
                       Inl e \<Rightarrow> (Some e, df2)
                     | Inr own \<Rightarrow> (None, df2(''own_ill_absent'' \<mapsto> Numeric own))))))"
proof -
  have split: "recoded_columns =
      [''YEAR'', ''MONTH'', ''STATEFIP'', ''AGE'', ''SEX'', ''EDUC'', ''EMPSTAT'']
      @ [''NCHILD'', ''NCHLT5'', ''MOMLOC'', ''POPLOC'', ''ABSENT'', ''WHYABSNT'']"
    by (simp add: recoded_columns_def)
  show ?thesis
    unfolding minimal_recode_def split recode_columns_append
    by (simp del: recode_columns.simps split: prod.splits option.splits)
qed

text \<open>
  What the recoder does, case by case: a listed column with a fractional value stops it
  with a \<open>TypeError\<close>; otherwise a missing \<open>ABSENT\<close> or \<open>WHYABSNT\<close> column stops it with a
  \<open>KeyError\<close>; otherwise it returns the table with the listed columns recoded and the
  flag column added.
\<close>

lemma minimal_recode_cases:
  "(\<not> all_integral parse df \<and> fst (minimal_recode parse df) = Some TypeError)
   \<or> (all_integral parse df \<and> (df ''ABSENT'' = None \<or> df ''WHYABSNT'' = None)
        \<and> fst (minimal_recode parse df) = Some KeyError)
   \<or> (\<exists>a w. all_integral parse df \<and> df ''ABSENT'' = Some a \<and> df ''WHYABSNT'' = Some w
        \<and> minimal_recode parse df =
            (None, (\<lambda>c. if c \<in> set recoded_columns then map_option (recoded parse) (df c) else df c)
                     (''own_ill_absent'' \<mapsto> Numeric (Numpy (map2 own_ill
                         (nvals (to_numeric parse a)) (nvals (to_numeric parse w)))))))"
proof (cases "all_integral parse df")
  case False
  then have "\<nexists>df'. recode_columns parse recoded_columns df = (None, df')"
    using recode_columns_succeeds[of parse recoded_columns df] by (simp add: all_integral_iff)
  then obtain e d where r: "recode_columns parse recoded_columns df = (Some e, d)"
    by (cases "recode_columns parse recoded_columns df") (metis not_None_eq)
  then have "e = TypeError"
    by (rule recode_columns_error)
  with r False show ?thesis
    by (simp add: minimal_recode_unfold)
next
  case True
  then obtain df2 where r: "recode_columns parse recoded_columns df = (None, df2)"
    using recode_columns_succeeds[of parse recoded_columns df] by (auto simp: all_integral_iff)
  have df2: "df2 = (\<lambda>c. if c \<in> set recoded_columns then map_option (recoded parse) (df c) else df c)"
    using recode_columns_result[OF r] by (intro ext) simp
  have abs: "df2 ''ABSENT'' = map_option (recoded parse) (df ''ABSENT'')"
    and why: "df2 ''WHYABSNT'' = map_option (recoded parse) (df ''WHYABSNT'')"
    unfolding df2 by (simp_all add: recoded_columns_def)
  show ?thesis
  proof (cases "df ''ABSENT''")
    case None
    with True r abs show ?thesis
      by (simp add: minimal_recode_unfold)
  next
    case a: (Some a)
    show ?thesis
    proof (cases "df ''WHYABSNT''")
      case None
      with True r abs why a show ?thesis
        by (simp add: minimal_recode_unfold)
    next
      case w: (Some w)
      have "minimal_recode parse df =
          (None, df2(''own_ill_absent'' \<mapsto> Numeric (Numpy (map2 own_ill
                         (nvals (to_numeric parse a)) (nvals (to_numeric parse w))))))"
        using r abs why a w by (simp add: minimal_recode_unfold own_ill_value)
      with True a w show ?thesis
        unfolding df2 by blast
    qed
  qed
qed



section \<open>The recoder: the own-illness flag\<close>






section \<open>The recoder: when it fails\<close>

lemma reading_unparseable:
  "i < length cs \<Longrightarrow> cs ! i = Text s \<Longrightarrow> parse s = None \<Longrightarrow> reading parse (Object cs) i = None"
  by (simp add: reading_def)




section \<open>The recoder: running it again\<close>

lemma minimal_recode_again:
  assumes ret: "minimal_recode parse df = (None, df')"
  shows "minimal_recode parse df' = (None, df')"
proof -
  from minimal_recode_cases[of parse df] ret obtain a w where
    a: "df ''ABSENT'' = Some a" and w: "df ''WHYABSNT'' = Some w" and
    df': "df' = (\<lambda>c. if c \<in> set recoded_columns then map_option (recoded parse) (df c) else df c)
                 (''own_ill_absent'' \<mapsto> Numeric (Numpy (map2 own_ill
                     (nvals (to_numeric parse a)) (nvals (to_numeric parse w)))))"
    by auto
  define own where "own = Numeric (Numpy (map2 own_ill
                     (nvals (to_numeric parse a)) (nvals (to_numeric parse w))))"
  have no: "''own_ill_absent'' \<notin> set recoded_columns"
    by (simp add: recoded_columns_def)
  have masked: "\<forall>c\<in>set recoded_columns. \<forall>col. df' c = Some col \<longrightarrow> (\<exists>xs. col = Numeric (Masked xs))"
    unfolding df' using no by (auto simp: recoded_def)
  have loop: "recode_columns parse recoded_columns df' = (None, df')"
    using masked by (rule recode_columns_fixed)
  have ca: "df' ''ABSENT'' = Some (recoded parse a)" and cw: "df' ''WHYABSNT'' = Some (recoded parse w)"
    unfolding df' using a w by (simp_all add: recoded_columns_def)
  have o: "df' ''own_ill_absent'' = Some own"
    unfolding df' own_def by simp
  have same: "df'(''own_ill_absent'' \<mapsto> own) = df'"
    using o by (rule map_upd_triv)
  have again: "to_numeric parse (recoded parse a) = Masked (nvals (to_numeric parse a))"
    "to_numeric parse (recoded parse w) = Masked (nvals (to_numeric parse w))"
    by (simp_all add: recoded_def)
  have val: "astype_int (band (eq_col (fillna_col (recoded parse a) 0) 1)
                 (isin_col (recoded parse w) [10])) = Inr (Numpy (map2 own_ill
                     (nvals (to_numeric parse a)) (nvals (to_numeric parse w))))"
    by (rule own_ill_value)
  show ?thesis
    unfolding minimal_recode_unfold loop
    using ca cw val same by (simp add: own_def)
qed


section \<open>The parent classifier\<close>

lemma bvals_positive:
  "bvals (gt_s (fillna (to_numeric parse c) 0) 0) =
     map (\<lambda>v. Some (0 < (case v of None \<Rightarrow> 0 | Some x \<Rightarrow> x))) (nvals (to_numeric parse c))"
  by (cases "to_numeric parse c") (auto simp: gt_s_def split: option.splits)

lemma num0_nth:
  "i < nrows c \<Longrightarrow>
     (case nvals (to_numeric parse c) ! i of None \<Rightarrow> 0 | Some x \<Rightarrow> x) = num0 parse c i"
  by (simp add: num0_def reading_def)

text \<open>
  Claim C4. On a table that has the four household columns, \<open>make_parent_flags\<close> returns,
  and in every row \<open>is_parent\<close> is 1 if \<open>NCHILD > 0\<close> or \<open>MOMLOC > 0\<close> or \<open>POPLOC > 0\<close> and
  0 otherwise, and \<open>has_child_u5\<close> is 1 if \<open>NCHLT5 > 0\<close> and 0 otherwise, a null or
  unparseable cell counting as 0. In particular \<open>is_parent\<close> is 1 whenever \<open>NCHILD > 0\<close>.
\<close>

theorem make_parent_flags_rows:
  assumes c1: "df ''NCHILD'' = Some c1" and c2: "df ''MOMLOC'' = Some c2"
    and c3: "df ''POPLOC'' = Some c3" and c4: "df ''NCHLT5'' = Some c4"
  shows "\<exists>out. make_parent_flags parse df = Inr out
           \<and> (\<forall>i. i < nrows c1 \<and> i < nrows c2 \<and> i < nrows c3 \<longrightarrow>
                 cell_at out ''is_parent'' i =
                   Some (if 0 < num0 parse c1 i \<or> 0 < num0 parse c2 i \<or> 0 < num0 parse c3 i
                         then 1 else 0)
                 \<and> (0 < num0 parse c1 i \<longrightarrow> cell_at out ''is_parent'' i = Some 1))
           \<and> (\<forall>i<nrows c4. cell_at out ''has_child_u5'' i =
                   Some (if 0 < num0 parse c4 i then 1 else 0))"
proof -
  define g1 where "g1 = gt_s (fillna (to_numeric parse c1) 0) 0"
  define g2 where "g2 = gt_s (fillna (to_numeric parse c2) 0) 0"
  define g3 where "g3 = gt_s (fillna (to_numeric parse c3) 0) 0"
  define g4 where "g4 = gt_s (fillna (to_numeric parse c4) 0) 0"
  define cast where "cast = (\<lambda>b. Numpy (map (\<lambda>v. flag01 (v = Some True)) (bvals b)))"
  have k: "None \<notin> set (bvals g1)" "None \<notin> set (bvals g2)" "None \<notin> set (bvals g3)"
    "None \<notin> set (bvals g4)"
    by (auto simp: g1_def g2_def g3_def g4_def bvals_positive)
  have k123: "None \<notin> set (bvals (bor (bor g1 g2) g3))"
    unfolding bvals_bor by (intro no_null_kor k)
  have a1: "astype_int (bor (bor g1 g2) g3) = Inr (cast (bor (bor g1 g2) g3))"
    and a2: "astype_int g4 = Inr (cast g4)"
    using k123 k(4) by (simp_all add: astype_int_known cast_def)
  define out where "out = df(''is_parent'' \<mapsto> Numeric (cast (bor (bor g1 g2) g3)),
      ''has_child_u5'' \<mapsto> Numeric (cast g4))"
  have ret: "make_parent_flags parse df = Inr out"
    using c1 c2 c3 c4 a1 a2
    by (simp add: make_parent_flags_def Let_def out_def g1_def[symmetric] g2_def[symmetric]
        g3_def[symmetric] g4_def[symmetric])
  have par: "cell_at out ''is_parent'' i =
      Some (if 0 < num0 parse c1 i \<or> 0 < num0 parse c2 i \<or> 0 < num0 parse c3 i then 1 else 0)"
    if i: "i < nrows c1" "i < nrows c2" "i < nrows c3" for i
  proof -
    have "cell_at out ''is_parent'' i = nvals (cast (bor (bor g1 g2) g3)) ! i"
      using i by (simp add: out_def cell_at_def cast_def bvals_bor g1_def g2_def g3_def
          bvals_positive)
    also have "\<dots> = flag01 (0 < num0 parse c1 i \<or> 0 < num0 parse c2 i \<or> 0 < num0 parse c3 i)"
      using i by (simp add: cast_def bvals_bor g1_def g2_def g3_def bvals_positive num0_nth)
    finally show ?thesis
      by (simp add: flag01_def)
  qed
  have u5: "cell_at out ''has_child_u5'' i = Some (if 0 < num0 parse c4 i then 1 else 0)"
    if i: "i < nrows c4" for i
    using i by (simp add: out_def cell_at_def cast_def g4_def bvals_positive num0_nth flag01_def)
  show ?thesis
    using ret par u5 by (intro exI[of _ out]) simp
qed

theorem make_parent_flags_rows_witness:
  "\<exists>out. make_parent_flags ex_parse ex_raw = Inr out
     \<and> cell_at out ''is_parent'' 0 = Some 0 \<and> cell_at out ''has_child_u5'' 0 = Some 0
     \<and> cell_at out ''is_parent'' 1 = Some 1 \<and> cell_at out ''has_child_u5'' 1 = Some 1
     \<and> cell_at out ''is_parent'' 2 = Some 0 \<and> cell_at out ''has_child_u5'' 2 = Some 0
     \<and> cell_at out ''is_parent'' 3 = Some 1 \<and> cell_at out ''has_child_u5'' 3 = Some 0"
proof -
  define c1 where "c1 = Object [Number 0, Number 2, Text ''n/a'', Number 0]"
  define c2 where "c2 = Object [Number 0, Number 0, Number 0, Number 1]"
  define c3 where "c3 = Object [Number 0, Number 0, Number 0, Missing]"
  define c4 where "c4 = Object [Number 0, Number 1, Missing, Number 0]"
  have cols: "ex_raw ''NCHILD'' = Some c1" "ex_raw ''MOMLOC'' = Some c2"
    "ex_raw ''POPLOC'' = Some c3" "ex_raw ''NCHLT5'' = Some c4"
    by (simp_all add: ex_raw_def c1_def c2_def c3_def c4_def)
  have n: "nrows c1 = 4" "nrows c2 = 4" "nrows c3 = 4" "nrows c4 = 4"
    by (simp_all add: nrows_def c1_def c2_def c3_def c4_def)
  have v: "num0 ex_parse c1 0 = 0" "num0 ex_parse c1 (Suc 0) = 2" "num0 ex_parse c1 2 = 0"
    "num0 ex_parse c1 3 = 0"
    "num0 ex_parse c2 0 = 0" "num0 ex_parse c2 (Suc 0) = 0" "num0 ex_parse c2 2 = 0"
    "num0 ex_parse c2 3 = 1"
    "num0 ex_parse c3 0 = 0" "num0 ex_parse c3 (Suc 0) = 0" "num0 ex_parse c3 2 = 0"
    "num0 ex_parse c3 3 = 0"
    "num0 ex_parse c4 0 = 0" "num0 ex_parse c4 (Suc 0) = 1" "num0 ex_parse c4 2 = 0"
    "num0 ex_parse c4 3 = 0"
    by (simp_all add: num0_def reading_def c1_def c2_def c3_def c4_def ex_parse_def)
  from make_parent_flags_rows[where parse = ex_parse and df = ex_raw, OF cols]
  obtain out where ret: "make_parent_flags ex_parse ex_raw = Inr out"
    and par: "\<And>i. i < nrows c1 \<and> i < nrows c2 \<and> i < nrows c3 \<Longrightarrow>
                 cell_at out ''is_parent'' i =
                   Some (if 0 < num0 ex_parse c1 i \<or> 0 < num0 ex_parse c2 i \<or> 0 < num0 ex_parse c3 i
                         then 1 else 0)"
    and u5: "\<And>i. i < nrows c4 \<Longrightarrow> cell_at out ''has_child_u5'' i =
                   Some (if 0 < num0 ex_parse c4 i then 1 else 0)"
    by blast
  show ?thesis
    using ret par[of 0] par[of 1] par[of 2] par[of 3] u5[of 0] u5[of 1] u5[of 2] u5[of 3]
    by (intro exI[of _ out]) (simp add: n v)
qed

section \<open>Running the recoder or the classifier on its own output\<close>

lemma make_parent_flags_again:
  assumes ret: "make_parent_flags parse df = Inr out"
  shows "make_parent_flags parse out = Inr out"
proof -
  from ret obtain c1 c2 c3 c4 ip u5 where
    c: "df ''NCHILD'' = Some c1" "df ''MOMLOC'' = Some c2" "df ''POPLOC'' = Some c3"
       "df ''NCHLT5'' = Some c4" and
    ip: "astype_int (bor (bor (gt_s (fillna (to_numeric parse c1) 0) 0)
           (gt_s (fillna (to_numeric parse c2) 0) 0)) (gt_s (fillna (to_numeric parse c3) 0) 0)) = Inr ip"
    and u5: "astype_int (gt_s (fillna (to_numeric parse c4) 0) 0) = Inr u5"
    and out: "out = df(''is_parent'' \<mapsto> Numeric ip, ''has_child_u5'' \<mapsto> Numeric u5)"
    by (auto simp: make_parent_flags_def Let_def split: option.splits sum.splits)
  have c': "out ''NCHILD'' = Some c1" "out ''MOMLOC'' = Some c2" "out ''POPLOC'' = Some c3"
       "out ''NCHLT5'' = Some c4"
    unfolding out using c by simp_all
  have same: "out(''is_parent'' \<mapsto> Numeric ip, ''has_child_u5'' \<mapsto> Numeric u5) = out"
    unfolding out by (intro ext) simp
  show ?thesis
    using c' ip u5 same by (simp add: make_parent_flags_def Let_def)
qed

text \<open>
  Claim C7. Whenever \<open>minimal_recode\<close> returns a table, running it on that table returns the
  same table again, so \<open>own_ill_absent\<close> is unchanged; whenever \<open>make_parent_flags\<close> returns
  a table, running it on that table returns the same table again, so \<open>is_parent\<close> and
  \<open>has_child_u5\<close> are unchanged.
\<close>

theorem rerun_unchanged:
  "(minimal_recode parse df = (None, df') \<longrightarrow>
      minimal_recode parse df' = (None, df')
      \<and> (\<forall>df''. minimal_recode parse df' = (None, df'') \<longrightarrow>
            df'' ''own_ill_absent'' = df' ''own_ill_absent''))
   \<and> (make_parent_flags parse df = Inr out \<longrightarrow>
      make_parent_flags parse out = Inr out
      \<and> (\<forall>out'. make_parent_flags parse out = Inr out' \<longrightarrow>
            out' ''is_parent'' = out ''is_parent'' \<and> out' ''has_child_u5'' = out ''has_child_u5''))"
  using minimal_recode_again[of parse df df'] make_parent_flags_again[of parse df out]
  by auto

theorem rerun_unchanged_witness:
  "\<exists>df' out. minimal_recode ex_parse ex_raw = (None, df')
     \<and> minimal_recode ex_parse df' = (None, df')
     \<and> make_parent_flags ex_parse ex_raw = Inr out
     \<and> make_parent_flags ex_parse out = Inr out"
proof -
  have int: "all_integral ex_parse ex_raw"
    by (simp add: all_integral_def recoded_columns_def ex_raw_def ex_parse_def integral_def
        int64_def whole_def)
  have "ex_raw ''ABSENT'' \<noteq> None" "ex_raw ''WHYABSNT'' \<noteq> None"
    by (simp_all add: ex_raw_def)
  with minimal_recode_cases[of ex_parse ex_raw] int
  obtain df' where r1: "minimal_recode ex_parse ex_raw = (None, df')"
    by auto
  obtain out where r2: "make_parent_flags ex_parse ex_raw = Inr out"
    by (simp add: make_parent_flags_def ex_raw_def gt_s_def)
  show ?thesis
    using rerun_unchanged[of ex_parse ex_raw df' out] r1 r2 by blast
qed


section \<open>Which table a call writes to\<close>

text \<open>
  \<open>make_parent_flags\<close> writes to the copy it allocates: every table that existed before the
  call is left as it was, and the table returned lives at a new address.
\<close>

lemma make_parent_flags_call_frame:
  assumes "make_parent_flags_call parse r s = (res, s')"
  shows "(\<forall>r'<next_id s. tables s' r' = tables s r')
       \<and> (\<forall>r'. res = Inr r' \<longrightarrow> r' = next_id s \<and> next_id s < next_id s')"
  using assms
  by (auto simp: make_parent_flags_call_def copy_def split: sum.splits)

text \<open>
  \<open>minimal_recode\<close> writes to the table it was given, and returns the address of that
  table.
\<close>

lemma minimal_recode_call_same_table:
  assumes "minimal_recode_call parse r s = (Inr r', s')"
  shows "r' = r \<and> tables s' r = snd (minimal_recode parse (tables s r))
       \<and> (\<forall>q. q \<noteq> r \<longrightarrow> tables s' q = tables s q)"
  using assms
  by (auto simp: minimal_recode_call_def split: prod.splits option.splits)

text \<open>
  Claim C6 at a concrete input. A caller holds the raw extract at address 0. After
  \<open>minimal_recode\<close> the table at address 0 has changed (it has the flag column, and its
  \<open>ABSENT\<close> column has been replaced), and the address returned is 0: the argument was
  updated in place and no new table was made. \<open>make_parent_flags\<close> on the same store
  returns the new address 1 and leaves the table at address 0 as it was.
\<close>

theorem minimal_recode_call_updates_argument:
  "tables ex_store 0 ''own_ill_absent'' = None
   \<and> tables ex_store 0 ''ABSENT'' = Some (Object [Number 1, Text ''1'', Number 1, Text ''n/a''])
   \<and> fst (minimal_recode_call ex_parse 0 ex_store) = Inr 0
   \<and> tables (snd (minimal_recode_call ex_parse 0 ex_store)) 0 ''own_ill_absent''
       = Some (Numeric (Numpy [Some 1, Some 0, Some 0, Some 0]))
   \<and> tables (snd (minimal_recode_call ex_parse 0 ex_store)) 0 ''ABSENT''
       = Some (Numeric (Masked [Some 1, Some 1, Some 1, None]))
   \<and> fst (make_parent_flags_call ex_parse 0 ex_store) = Inr 1
   \<and> tables (snd (make_parent_flags_call ex_parse 0 ex_store)) 0 = tables ex_store 0"
proof -
  have int: "all_integral ex_parse ex_raw"
    by (simp add: all_integral_def recoded_columns_def ex_raw_def ex_parse_def integral_def
        int64_def whole_def)
  have a: "ex_raw ''ABSENT'' = Some (Object [Number 1, Text ''1'', Number 1, Text ''n/a''])"
    and w: "ex_raw ''WHYABSNT'' = Some (Object [Text ''10'', Number 5, Missing, Number 10])"
    and o: "ex_raw ''own_ill_absent'' = None"
    by (simp_all add: ex_raw_def)
  define F where "F = (\<lambda>c. if c \<in> set recoded_columns then map_option (recoded ex_parse) (ex_raw c)
                   else ex_raw c)
         (''own_ill_absent'' \<mapsto> Numeric (Numpy (map2 own_ill
            (nvals (to_numeric ex_parse (Object [Number 1, Text ''1'', Number 1, Text ''n/a''])))
            (nvals (to_numeric ex_parse (Object [Text ''10'', Number 5, Missing, Number 10]))))))"
  from minimal_recode_cases[of ex_parse ex_raw] int a w
  have ret: "minimal_recode ex_parse ex_raw = (None, F)"
    unfolding F_def by auto
  have t0: "tables ex_store 0 = ex_raw"
    by (simp add: ex_store_def)
  have call1: "minimal_recode_call ex_parse 0 ex_store
      = (Inr 0, ex_store\<lparr>tables := (tables ex_store)(0 := F)\<rparr>)"
    by (simp add: minimal_recode_call_def t0 ret)
  have r1: "fst (minimal_recode_call ex_parse 0 ex_store) = Inr 0"
    by (simp add: call1)
  have r2: "tables (snd (minimal_recode_call ex_parse 0 ex_store)) 0 ''own_ill_absent''
       = Some (Numeric (Numpy [Some 1, Some 0, Some 0, Some 0]))"
    unfolding call1 by (simp add: F_def own_ill_def flag01_def ex_parse_def)
  have r3: "tables (snd (minimal_recode_call ex_parse 0 ex_store)) 0 ''ABSENT''
       = Some (Numeric (Masked [Some 1, Some 1, Some 1, None]))"
    unfolding call1 by (simp add: F_def a recoded_def recoded_columns_def ex_parse_def)
  obtain res s' where call: "make_parent_flags_call ex_parse 0 ex_store = (res, s')"
    by (cases "make_parent_flags_call ex_parse 0 ex_store")
  obtain out where p: "make_parent_flags ex_parse ex_raw = Inr out"
    by (simp add: make_parent_flags_def ex_raw_def gt_s_def)
  have res: "res = Inr 1"
    using call p by (auto simp: make_parent_flags_call_def copy_def ex_store_def)
  have keep: "tables s' 0 = tables ex_store 0"
    using make_parent_flags_call_frame[OF call] by (simp add: ex_store_def)
  show ?thesis
    using t0 o a r1 r2 r3 res keep call by simp
qed


section \<open>Facts about selecting rows, sorting keys and means\<close>

lemma select_Nil [simp]: "select [] xs = []" "select m [] = []"
  by (simp_all add: select_def)

lemma select_Cons [simp]: "select (b # m) (x # xs) = (if b then x # select m xs else select m xs)"
  by (simp add: select_def)

lemma select_map: "select m (map f xs) = map f (select m xs)"
proof (induction m arbitrary: xs)
  case Nil
  show ?case by simp
next
  case (Cons b m)
  show ?case by (cases xs) (simp_all add: Cons.IH)
qed

lemma select_zip:
  "length xs = length ys \<Longrightarrow> select m (zip xs ys) = zip (select m xs) (select m ys)"
proof (induction m arbitrary: xs ys)
  case Nil
  show ?case by simp
next
  case (Cons b m)
  then show ?case by (cases xs; cases ys) simp_all
qed

lemma length_select_eq:
  "length xs = length ys \<Longrightarrow> length (select m xs) = length (select m ys)"
proof (induction m arbitrary: xs ys)
  case Nil
  show ?case by simp
next
  case (Cons b m)
  then show ?case by (cases xs; cases ys) simp_all
qed

lemma select_index:
  "length m = length xs \<Longrightarrow> select m xs = map ((!) xs) (filter ((!) m) [0..<length xs])"
proof (induction m arbitrary: xs)
  case Nil
  then show ?case by simp
next
  case (Cons b m)
  then obtain x xs' where xs: "xs = x # xs'" and len: "length m = length xs'"
    by (cases xs) auto
  have up: "[0..<length xs] = 0 # map Suc [0..<length xs']"
    by (simp add: xs upt_conv_Cons map_Suc_upt del: upt_Suc)
  have shift: "map ((!) xs) (filter ((!) (b' # m)) (map Suc [0..<length xs']))
      = map ((!) xs') (filter ((!) m) [0..<length xs'])" for b'
    by (simp add: filter_map comp_def xs)
  show ?case
    unfolding up using Cons.IH[OF len] shift[of True] shift[of False]
    by (cases b) (simp_all add: xs)
qed

lemma select_update:
  "i < length m \<Longrightarrow> \<not> m ! i \<Longrightarrow> select m (xs[i := v]) = select m xs"
proof (induction m arbitrary: xs i)
  case Nil
  then show ?case by simp
next
  case (Cons b m)
  show ?case
  proof (cases xs)
    case Nil
    then show ?thesis by simp
  next
    case (Cons x xs')
    with Cons.prems Cons.IH show ?thesis
      by (cases i) auto
  qed
qed

lemma set_insert_key [simp]: "set (insert_key k ks) = insert k (set ks)"
  by (induction ks) auto

lemma set_sort_keys [simp]: "set (sort_keys ks) = set ks"
  by (induction ks) auto

lemma distinct_insert_key [simp]: "distinct (insert_key k ks) \<longleftrightarrow> k \<notin> set ks \<and> distinct ks"
  by (induction ks) auto

lemma distinct_sort_keys [simp]: "distinct (sort_keys ks) \<longleftrightarrow> distinct ks"
  by (induction ks) auto

lemma collect_map_Inr: "collect (map Inr ys) = Inr ys"
  by (induction ys) simp_all

lemma collect_Inr_D: "collect rs = Inr ys \<Longrightarrow> rs = map Inr ys"
proof (induction rs arbitrary: ys rule: collect.induct)
  case 1
  then show ?case by simp
next
  case (2 e rs)
  then show ?case by simp
next
  case (3 x rs)
  then obtain xs where xs: "collect rs = Inr xs" and ys: "ys = x # xs"
    by (auto split: sum.splits)
  from "3.IH"[OF xs] ys show ?case
    by simp
qed

lemma collect_Inr: "collect rs = Inr ys \<longleftrightarrow> rs = map Inr ys"
  using collect_Inr_D collect_map_Inr by blast

lemma sum_list_unit:
  fixes xs :: "rat list"
  assumes "\<forall>x\<in>set xs. 0 \<le> x \<and> x \<le> 1"
  shows "0 \<le> sum_list xs \<and> sum_list xs \<le> of_nat (length xs)"
  using assms by (induction xs) auto

lemma mean_unit:
  assumes ne: "xs \<noteq> []" and unit: "\<forall>x\<in>set xs. 0 \<le> x \<and> x \<le> 1"
  shows "\<exists>q. mean xs = Some q \<and> 0 \<le> q \<and> q \<le> 1"
proof -
  have len: "0 < (of_nat (length xs) :: rat)"
    using ne by simp
  have s: "0 \<le> sum_list xs" "sum_list xs \<le> of_nat (length xs)"
    using sum_list_unit[OF unit] by simp_all
  have "0 \<le> sum_list xs / of_nat (length xs)"
    using s(1) len by simp
  moreover have "sum_list xs / of_nat (length xs) \<le> 1"
    using s(2) len by (simp add: divide_le_eq)
  ultimately show ?thesis
    using ne by (simp add: mean_def)
qed

lemma cells_loc_col: "cells (loc_col m c) = select m (cells c)"
proof (cases c)
  case (Object cs)
  then show ?thesis by simp
next
  case (Numeric n)
  then show ?thesis by (cases n) (simp_all add: select_map)
qed

lemma length_cells [simp]: "length (cells c) = nrows c"
  by (cases c) (simp_all add: nrows_def)


section \<open>The rate aggregator: the eligibility mask\<close>

lemma bvals_cmp_fillna:
  "bvals (cmp p (fillna s 0)) = map (\<lambda>v. Some (p (case v of None \<Rightarrow> 0 | Some x \<Rightarrow> x))) (nvals s)"
  by (cases s) (auto split: option.splits)

lemma bvals_isin_fillna:
  "bvals (isin (fillna s 0) ks) =
     map (\<lambda>v. Some ((case v of None \<Rightarrow> 0 | Some x \<Rightarrow> x) \<in> set ks)) (nvals s)"
  by (cases s) (auto split: option.splits)

lemma nvals_fillna:
  "nvals (fillna s v) = map (\<lambda>c. case c of None \<Rightarrow> Some v | Some x \<Rightarrow> Some x) (nvals s)"
  by (cases s) simp_all

lemma bvals_keep_mask:
  assumes e: "nrows e = n" and a: "nrows a = n"
  shows "bvals (keep_mask parse e a) = map (\<lambda>i. Some (eligible parse e a i)) [0..<n]"
proof (rule nth_equalityI)
  have le: "length (nvals (to_numeric parse e)) = n" and la: "length (nvals (to_numeric parse a)) = n"
    using e a by simp_all
  show len: "length (bvals (keep_mask parse e a)) = length (map (\<lambda>i. Some (eligible parse e a i)) [0..<n])"
    by (simp add: keep_mask_def Let_def between_def ge_s_def le_s_def bvals_band bvals_cmp_fillna
        bvals_isin_fillna le la del: length_to_numeric)
  fix i assume "i < length (bvals (keep_mask parse e a))"
  then have i: "i < n"
    using len by simp
  then have ie: "i < nrows e" and ia: "i < nrows a"
    using e a by simp_all
  show "bvals (keep_mask parse e a) ! i = map (\<lambda>i. Some (eligible parse e a i)) [0..<n] ! i"
    using i le la
    by (simp add: keep_mask_def Let_def between_def ge_s_def le_s_def bvals_band bvals_cmp_fillna
        bvals_isin_fillna eligible_def num0_nth[OF ie] num0_nth[OF ia] del: length_to_numeric)
qed

lemma mask_of_keep_mask:
  assumes e: "nrows e = n" and a: "nrows a = n"
  shows "mask_of (keep_mask parse e a) = Inr (map (eligible parse e a) [0..<n])"
  unfolding mask_of_known bvals_keep_mask[OF e a] by (simp add: comp_def image_iff)

section \<open>The rate aggregator: the rows that are grouped\<close>

lemma grouped_rows_loc:
  assumes ly: "nrows ys = n" and lm: "nrows ms = n" and lp: "nrows ps = n" and lo: "nrows own = n"
    and m: "m = map el [0..<n]"
  shows "grouped_rows (loc_col m ys) (loc_col m ms) (loc_col m ps) (loc_col m own) =
     map (\<lambda>i. (row_key ys ms ps i, cells own ! i))
       (filter (\<lambda>i. el i \<and> \<not> has_null (row_key ys ms ps i)) [0..<n])"
proof -
  define rows where "rows = zip (zip (cells ys) (zip (cells ms) (cells ps))) (cells own)"
  have lr: "length rows = n"
    using ly lm lp lo by (simp add: rows_def)
  have lenm: "length m = length rows"
    using lr m by simp
  have nth: "rows ! i = (row_key ys ms ps i, cells own ! i)" if "i < n" for i
    using that ly lm lp lo by (simp add: rows_def row_key_def)
  have sel: "zip (zip (select m (cells ys)) (zip (select m (cells ms)) (select m (cells ps))))
       (select m (cells own)) = select m rows"
    unfolding rows_def using ly lm lp lo by (simp add: select_zip)
  have keep: "filter ((!) m) [0..<n] = filter el [0..<n]"
    by (rule filter_cong) (simp_all add: m)
  have "select m rows = map ((!) rows) (filter el [0..<n])"
    using select_index[OF lenm] keep lr by simp
  also have "\<dots> = map (\<lambda>i. (row_key ys ms ps i, cells own ! i)) (filter el [0..<n])"
    by (rule map_cong) (auto simp: nth)
  finally have s: "select m rows =
      map (\<lambda>i. (row_key ys ms ps i, cells own ! i)) (filter el [0..<n])" .
  show ?thesis
    unfolding grouped_rows_def cells_loc_col sel s
    by (simp add: filter_map comp_def conj_commute)
qed


section \<open>The rate aggregator: groups and means\<close>

lemma group_mean_Inr:
  "group_mean rows k = Inr g \<Longrightarrow> g = (k, mean (numbers (members rows k)))"
  by (auto simp: group_mean_def split: if_splits)

lemma map_Inr_determined:
  assumes "map f xs = map Inr ys" and "\<And>x y. f x = Inr y \<Longrightarrow> y = g x"
  shows "ys = map g xs"
  using assms
proof (induction xs arbitrary: ys)
  case Nil
  then show ?case by simp
next
  case (Cons x xs)
  then show ?case by (cases ys) auto
qed

lemma collect_total:
  assumes "\<forall>x\<in>set xs. \<exists>y. f x = Inr y"
  shows "\<exists>ys. collect (map f xs) = Inr ys"
  using assms
proof (induction xs)
  case Nil
  show ?case by simp
next
  case (Cons x xs)
  then obtain y ys where "f x = Inr y" and "collect (map f xs) = Inr ys"
    by auto
  then show ?case by simp
qed

lemma members_map:
  "members (map (\<lambda>i. (K i, V i)) I) k = map V (filter (\<lambda>i. K i = k) I)"
  by (simp add: members_def filter_map comp_def)

lemma numbers_flags:
  assumes "\<forall>c\<in>set cs. c = Number 0 \<or> c = Number 1"
  shows "length (numbers cs) = length cs \<and> (\<forall>x\<in>set (numbers cs). 0 \<le> x \<and> x \<le> 1)"
  using assms by (induction cs) (auto simp: numbers_def)

lemma group_rows_empty:
  "group_rows parse e a ys ms ps n k \<noteq> [] \<longleftrightarrow>
     (\<exists>i<n. eligible parse e a i \<and> row_key ys ms ps i = k)"
  by (auto simp: group_rows_def filter_empty_conv)

text \<open>
  What the aggregator computes before the final cast of the key columns: the keys of the
  kept rows in ascending order, each with the mean of its group.
\<close>

lemma groupby_mean_loc_eq:
  assumes ys: "df ''YEAR'' = Some ys" and ms: "df ''MONTH'' = Some ms"
    and ps: "df ''is_parent'' = Some ps" and own: "df ''own_ill_absent'' = Some own"
    and ly: "nrows ys = n" and lm: "nrows ms = n" and lp: "nrows ps = n" and lo: "nrows own = n"
    and m: "m = map (eligible parse e a) [0..<n]"
  shows "groupby_mean (loc m df) =
     collect (map (group_mean (kept_rows parse e a ys ms ps own n))
       (sort_keys (remdups (map fst (kept_rows parse e a ys ms ps own n)))))"
proof -
  have gr: "grouped_rows (loc_col m ys) (loc_col m ms) (loc_col m ps) (loc_col m own)
      = kept_rows parse e a ys ms ps own n"
    unfolding kept_rows_def by (rule grouped_rows_loc[OF ly lm lp lo m])
  show ?thesis
    using ys ms ps own by (simp add: groupby_mean_def loc_def gr Let_def)
qed

lemma members_kept_rows:
  assumes "\<not> has_null k"
  shows "members (kept_rows parse e a ys ms ps own n) k =
     map ((!) (cells own)) (group_rows parse e a ys ms ps n k)"
proof -
  have "filter (\<lambda>i. row_key ys ms ps i = k)
          (filter (\<lambda>i. eligible parse e a i \<and> \<not> has_null (row_key ys ms ps i)) [0..<n])
        = group_rows parse e a ys ms ps n k"
    unfolding group_rows_def filter_filter
    by (rule filter_cong) (use assms in auto)
  then show ?thesis
    by (simp add: kept_rows_def members_map)
qed

lemma keys_kept_rows:
  "fst ` set (kept_rows parse e a ys ms ps own n) =
     {k. \<not> has_null k \<and> group_rows parse e a ys ms ps n k \<noteq> []}"
proof (intro set_eqI iffI)
  fix k assume "k \<in> fst ` set (kept_rows parse e a ys ms ps own n)"
  then show "k \<in> {k. \<not> has_null k \<and> group_rows parse e a ys ms ps n k \<noteq> []}"
    unfolding group_rows_empty by (auto simp: kept_rows_def)
next
  fix k assume "k \<in> {k. \<not> has_null k \<and> group_rows parse e a ys ms ps n k \<noteq> []}"
  then obtain i where "i < n" "eligible parse e a i" "row_key ys ms ps i = k" "\<not> has_null k"
    unfolding group_rows_empty by auto
  then show "k \<in> fst ` set (kept_rows parse e a ys ms ps own n)"
    by (force simp: kept_rows_def)
qed

lemma groupby_mean_loc:
  assumes ys: "df ''YEAR'' = Some ys" and ms: "df ''MONTH'' = Some ms"
    and ps: "df ''is_parent'' = Some ps" and own: "df ''own_ill_absent'' = Some own"
    and ly: "nrows ys = n" and lm: "nrows ms = n" and lp: "nrows ps = n" and lo: "nrows own = n"
    and m: "m = map (eligible parse e a) [0..<n]"
    and gm: "groupby_mean (loc m df) = Inr groups"
  shows "distinct (map fst groups)
       \<and> set (map fst groups) = {k. \<not> has_null k \<and> group_rows parse e a ys ms ps n k \<noteq> []}
       \<and> (\<forall>j<length groups.
             snd (groups ! j) =
               mean (numbers (map ((!) (cells own))
                 (group_rows parse e a ys ms ps n (fst (groups ! j))))))"
proof -
  define rows where "rows = kept_rows parse e a ys ms ps own n"
  define keys where "keys = sort_keys (remdups (map fst rows))"
  define g where "g = (\<lambda>k. (k, mean (numbers (members rows k))))"
  have "groupby_mean (loc m df) = collect (map (group_mean rows) keys)"
    unfolding rows_def keys_def by (rule groupby_mean_loc_eq[OF ys ms ps own ly lm lp lo m])
  with gm have "map (group_mean rows) keys = map Inr groups"
    by (simp add: collect_Inr)
  then have groups: "groups = map g keys"
    by (rule map_Inr_determined) (simp add: g_def group_mean_Inr)
  have fst: "map fst groups = keys"
    by (simp add: groups g_def comp_def)
  have d: "distinct (map fst groups)"
    unfolding fst keys_def by simp
  have obs: "set (map fst groups) = {k. \<not> has_null k \<and> group_rows parse e a ys ms ps n k \<noteq> []}"
    unfolding fst keys_def rows_def using keys_kept_rows[of parse e a ys ms ps own n] by simp
  have means: "snd (groups ! j) =
      mean (numbers (map ((!) (cells own)) (group_rows parse e a ys ms ps n (fst (groups ! j)))))"
    if j: "j < length groups" for j
  proof -
    have jk: "j < length keys"
      using j by (simp add: groups)
    then have "keys ! j \<in> set (map fst groups)"
      unfolding fst by simp
    then have nn: "\<not> has_null (keys ! j)"
      unfolding obs by simp
    show ?thesis
      using jk members_kept_rows[OF nn, of parse e a ys ms ps own n]
      by (simp add: groups g_def rows_def)
  qed
  show ?thesis
    using d obs means by blast
qed

lemma astype_keys_Inr:
  assumes "astype_keys pyint groups = Inr out"
  shows "out ''rate'' = Some (Numeric (Numpy (map snd groups)))
       \<and> (\<forall>j<length groups.
             cell_at out ''rate'' j = snd (groups ! j)
           \<and> cell_int pyint (fst (fst (groups ! j))) = Inr (cell_at out ''YEAR'' j)
           \<and> cell_int pyint (fst (snd (fst (groups ! j)))) = Inr (cell_at out ''MONTH'' j)
           \<and> cell_int pyint (snd (snd (fst (groups ! j)))) = Inr (cell_at out ''is_parent'' j))"
proof -
  from assms obtain y m p where
    y: "map (\<lambda>g. cell_int pyint (fst (fst g))) groups = map Inr y" and
    m: "map (\<lambda>g. cell_int pyint (fst (snd (fst g)))) groups = map Inr m" and
    p: "map (\<lambda>g. cell_int pyint (snd (snd (fst g)))) groups = map Inr p" and
    out: "out = [''YEAR'' \<mapsto> Numeric (Numpy y), ''MONTH'' \<mapsto> Numeric (Numpy m),
               ''is_parent'' \<mapsto> Numeric (Numpy p),
               ''rate'' \<mapsto> Numeric (Numpy (map snd groups))]"
    by (auto simp: astype_keys_def collect_Inr split: sum.splits)
  have len: "length y = length groups" "length m = length groups" "length p = length groups"
    using y m p by (metis length_map)+
  have row: "cell_at out ''rate'' j = snd (groups ! j)
           \<and> cell_int pyint (fst (fst (groups ! j))) = Inr (cell_at out ''YEAR'' j)
           \<and> cell_int pyint (fst (snd (fst (groups ! j)))) = Inr (cell_at out ''MONTH'' j)
           \<and> cell_int pyint (snd (snd (fst (groups ! j)))) = Inr (cell_at out ''is_parent'' j)"
    if j: "j < length groups" for j
  proof -
    have "cell_int pyint (fst (fst (groups ! j))) = Inr (y ! j)"
      using arg_cong[OF y, of "\<lambda>l. l ! j"] j len by simp
    moreover have "cell_int pyint (fst (snd (fst (groups ! j)))) = Inr (m ! j)"
      using arg_cong[OF m, of "\<lambda>l. l ! j"] j len by simp
    moreover have "cell_int pyint (snd (snd (fst (groups ! j)))) = Inr (p ! j)"
      using arg_cong[OF p, of "\<lambda>l. l ! j"] j len by simp
    ultimately show ?thesis
      using j len by (simp add: out cell_at_def)
  qed
  show ?thesis
    using row by (simp add: out)
qed


lemma astype_keys_total:
  assumes "\<forall>g\<in>set groups. \<exists>x y z. fst g = (Number x, Number y, Number z)"
  shows "\<exists>out. astype_keys pyint groups = Inr out"
proof -
  have num: "\<exists>x y z. fst g = (Number x, Number y, Number z)" if "g \<in> set groups" for g
    using assms that by blast
  have "\<exists>y. collect (map (\<lambda>g. cell_int pyint (fst (fst g))) groups) = Inr y"
  proof (rule collect_total, rule ballI)
    fix g assume "g \<in> set groups"
    from num[OF this] obtain x y z where "fst g = (Number x, Number y, Number z)"
      by blast
    then show "\<exists>v. cell_int pyint (fst (fst g)) = Inr v"
      by simp
  qed
  then obtain y where y: "collect (map (\<lambda>g. cell_int pyint (fst (fst g))) groups) = Inr y" ..
  have "\<exists>m. collect (map (\<lambda>g. cell_int pyint (fst (snd (fst g)))) groups) = Inr m"
  proof (rule collect_total, rule ballI)
    fix g assume "g \<in> set groups"
    from num[OF this] obtain x y z where "fst g = (Number x, Number y, Number z)"
      by blast
    then show "\<exists>v. cell_int pyint (fst (snd (fst g))) = Inr v"
      by simp
  qed
  then obtain m where m: "collect (map (\<lambda>g. cell_int pyint (fst (snd (fst g)))) groups) = Inr m" ..
  have "\<exists>p. collect (map (\<lambda>g. cell_int pyint (snd (snd (fst g)))) groups) = Inr p"
  proof (rule collect_total, rule ballI)
    fix g assume "g \<in> set groups"
    from num[OF this] obtain x y z where "fst g = (Number x, Number y, Number z)"
      by blast
    then show "\<exists>v. cell_int pyint (snd (snd (fst g))) = Inr v"
      by simp
  qed
  then obtain p where p: "collect (map (\<lambda>g. cell_int pyint (snd (snd (fst g)))) groups) = Inr p" ..
  show ?thesis
    by (simp add: astype_keys_def y m p)
qed

lemma flagged_columns:
  assumes "flagged df n"
  obtains e a ys ms ps own where
    "df ''EMPSTAT'' = Some e" "df ''AGE'' = Some a" "df ''YEAR'' = Some ys"
    "df ''MONTH'' = Some ms" "df ''is_parent'' = Some ps" "df ''own_ill_absent'' = Some own"
    "nrows e = n" "nrows a = n" "nrows ys = n" "nrows ms = n" "nrows ps = n" "nrows own = n"
    "\<forall>x\<in>set (cells ys). \<not> is_text x" "\<forall>x\<in>set (cells ms). \<not> is_text x"
    "\<forall>x\<in>set (cells ps). \<not> is_text x" "\<forall>x\<in>set (cells own). x = Number 0 \<or> x = Number 1"
  using assms
  by (auto simp: flagged_def aggregator_columns_def list_all_iff split: option.splits)

lemma key_numbers:
  assumes "\<not> has_null k" and "k = row_key ys ms ps i" and "i < n"
    and "nrows ys = n" "nrows ms = n" "nrows ps = n"
    and "\<forall>x\<in>set (cells ys). \<not> is_text x" "\<forall>x\<in>set (cells ms). \<not> is_text x"
      "\<forall>x\<in>set (cells ps). \<not> is_text x"
  shows "\<exists>x y z. k = (Number x, Number y, Number z)"
proof -
  have in_y: "cells ys ! i \<in> set (cells ys)" and in_m: "cells ms ! i \<in> set (cells ms)"
    and in_p: "cells ps ! i \<in> set (cells ps)"
    using assms(3-6) by simp_all
  have "\<not> is_text (cells ys ! i)" "\<not> is_text (cells ms ! i)" "\<not> is_text (cells ps ! i)"
    using assms(7-9) in_y in_m in_p by blast+
  moreover have "cells ys ! i \<noteq> Missing" "cells ms ! i \<noteq> Missing" "cells ps ! i \<noteq> Missing"
    using assms(1,2) by (simp_all add: has_null_def row_key_def)
  ultimately show ?thesis
    unfolding assms(2) row_key_def
    by (cases "cells ys ! i"; cases "cells ms ! i"; cases "cells ps ! i")
      (simp_all add: is_text_def)
qed


section \<open>The rate aggregator: the rates of a flagged table\<close>

text \<open>
  Claim C3. On a flagged table the aggregator returns. It keeps exactly the rows whose
  employment status is 10 or 12 and whose age lies in \<open>[25, 49]\<close>; the output has one row
  for each key (year, month, is_parent) that a kept row has (a key that holds a null
  makes no group), no two output rows have the same key, and no other row. The rate of
  an output row is the mean of \<open>own_ill_absent\<close> over the kept rows with its key, of which
  there is at least one, and it lies in \<open>[0, 1]\<close>.
\<close>

theorem aggregate_monthly_rates_flagged:
  assumes fl: "flagged df n"
  shows "\<exists>e a ys ms ps own out groups.
      df ''EMPSTAT'' = Some e \<and> df ''AGE'' = Some a \<and> df ''YEAR'' = Some ys
    \<and> df ''MONTH'' = Some ms \<and> df ''is_parent'' = Some ps \<and> df ''own_ill_absent'' = Some own
    \<and> mask_of (keep_mask parse e a) = Inr (map (eligible parse e a) [0..<n])
    \<and> aggregate_monthly_rates parse pyint df = Inr out
    \<and> out ''rate'' = Some (Numeric (Numpy (map snd groups)))
    \<and> distinct (map fst groups)
    \<and> set (map fst groups) = {k. \<not> has_null k \<and> group_rows parse e a ys ms ps n k \<noteq> []}
    \<and> (\<forall>j<length groups.
          group_rows parse e a ys ms ps n (fst (groups ! j)) \<noteq> []
        \<and> cell_at out ''rate'' j =
            mean (numbers (map ((!) (cells own))
              (group_rows parse e a ys ms ps n (fst (groups ! j)))))
        \<and> (\<exists>q. cell_at out ''rate'' j = Some q \<and> 0 \<le> q \<and> q \<le> 1)
        \<and> cell_int pyint (fst (fst (groups ! j))) = Inr (cell_at out ''YEAR'' j)
        \<and> cell_int pyint (fst (snd (fst (groups ! j)))) = Inr (cell_at out ''MONTH'' j)
        \<and> cell_int pyint (snd (snd (fst (groups ! j)))) = Inr (cell_at out ''is_parent'' j))"
proof -
  from fl obtain e a ys ms ps own where
    e: "df ''EMPSTAT'' = Some e" and a: "df ''AGE'' = Some a" and ys: "df ''YEAR'' = Some ys"
    and ms: "df ''MONTH'' = Some ms" and ps: "df ''is_parent'' = Some ps"
    and own: "df ''own_ill_absent'' = Some own"
    and le: "nrows e = n" and la: "nrows a = n" and ly: "nrows ys = n" and lm: "nrows ms = n"
    and lp: "nrows ps = n" and lo: "nrows own = n"
    and ty: "\<forall>x\<in>set (cells ys). \<not> is_text x" and tm: "\<forall>x\<in>set (cells ms). \<not> is_text x"
    and tp: "\<forall>x\<in>set (cells ps). \<not> is_text x"
    and flags: "\<forall>x\<in>set (cells own). x = Number 0 \<or> x = Number 1"
    by (rule flagged_columns)
  define m where "m = map (eligible parse e a) [0..<n]"
  define rows where "rows = kept_rows parse e a ys ms ps own n"
  define keys where "keys = sort_keys (remdups (map fst rows))"
  define G where "G = group_rows parse e a ys ms ps n"
  have mask: "mask_of (keep_mask parse e a) = Inr m"
    unfolding m_def by (rule mask_of_keep_mask[OF le la])
  have eq: "groupby_mean (loc m df) = collect (map (group_mean rows) keys)"
    unfolding rows_def keys_def
    by (rule groupby_mean_loc_eq[OF ys ms ps own ly lm lp lo m_def])
  have keyset: "set keys = {k. \<not> has_null k \<and> G k \<noteq> []}"
    unfolding keys_def rows_def G_def
    using keys_kept_rows[of parse e a ys ms ps own n] by simp
  have vals: "\<forall>c\<in>set (map ((!) (cells own)) (G k)). c = Number 0 \<or> c = Number 1" for k
  proof -
    have "cells own ! i \<in> set (cells own)" if "i \<in> set (G k)" for i
      using that lo by (simp add: G_def group_rows_def)
    with flags show ?thesis
      by auto
  qed
  have mem: "members rows k = map ((!) (cells own)) (G k)" if "\<not> has_null k" for k
    unfolding rows_def G_def by (rule members_kept_rows[OF that])
  have "\<exists>y. group_mean rows k = Inr y" if "k \<in> set keys" for k
  proof -
    have nn: "\<not> has_null k"
      using that keyset by simp
    have "\<not> list_ex is_text (members rows k)"
      unfolding mem[OF nn] list_ex_iff using vals[of k] by (auto simp: is_text_def)
    then have "group_mean rows k = Inr (k, mean (numbers (members rows k)))"
      by (simp add: group_mean_def)
    then show ?thesis
      by blast
  qed
  then have "\<exists>groups. collect (map (group_mean rows) keys) = Inr groups"
    by (intro collect_total ballI)
  then obtain groups where gm: "groupby_mean (loc m df) = Inr groups"
    using eq by auto
  from groupby_mean_loc[OF ys ms ps own ly lm lp lo m_def gm]
  have d: "distinct (map fst groups)"
    and obs: "set (map fst groups) = {k. \<not> has_null k \<and> G k \<noteq> []}"
    and means: "\<And>j. j < length groups \<Longrightarrow>
        snd (groups ! j) = mean (numbers (map ((!) (cells own)) (G (fst (groups ! j)))))"
    unfolding G_def by blast+
  have "\<exists>x y z. fst g = (Number x, Number y, Number z)" if "g \<in> set groups" for g
  proof -
    have "fst g \<in> set (map fst groups)"
      using that by simp
    then have nn: "\<not> has_null (fst g)" and ne: "G (fst g) \<noteq> []"
      unfolding obs by simp_all
    from ne obtain i where i: "i < n" and k: "row_key ys ms ps i = fst g"
      unfolding G_def group_rows_empty by blast
    show ?thesis
      by (rule key_numbers[OF nn k[symmetric] i ly lm lp ty tm tp])
  qed
  then obtain out where ak: "astype_keys pyint groups = Inr out"
    using astype_keys_total[of groups pyint] by blast
  have ret: "aggregate_monthly_rates parse pyint df = Inr out"
    by (simp add: aggregate_monthly_rates_def e a mask gm ak)
  from astype_keys_Inr[OF ak]
  have rate: "out ''rate'' = Some (Numeric (Numpy (map snd groups)))"
    and cast: "\<And>j. j < length groups \<Longrightarrow>
             cell_at out ''rate'' j = snd (groups ! j)
           \<and> cell_int pyint (fst (fst (groups ! j))) = Inr (cell_at out ''YEAR'' j)
           \<and> cell_int pyint (fst (snd (fst (groups ! j)))) = Inr (cell_at out ''MONTH'' j)
           \<and> cell_int pyint (snd (snd (fst (groups ! j)))) = Inr (cell_at out ''is_parent'' j)"
    by blast+
  have row: "G (fst (groups ! j)) \<noteq> []
        \<and> cell_at out ''rate'' j = mean (numbers (map ((!) (cells own)) (G (fst (groups ! j)))))
        \<and> (\<exists>q. cell_at out ''rate'' j = Some q \<and> 0 \<le> q \<and> q \<le> 1)
        \<and> cell_int pyint (fst (fst (groups ! j))) = Inr (cell_at out ''YEAR'' j)
        \<and> cell_int pyint (fst (snd (fst (groups ! j)))) = Inr (cell_at out ''MONTH'' j)
        \<and> cell_int pyint (snd (snd (fst (groups ! j)))) = Inr (cell_at out ''is_parent'' j)"
    if j: "j < length groups" for j
  proof -
    define k where "k = fst (groups ! j)"
    have "k \<in> set (map fst groups)"
      using j by (simp add: k_def)
    then have ne: "G k \<noteq> []"
      unfolding obs by simp
    have r: "cell_at out ''rate'' j = mean (numbers (map ((!) (cells own)) (G k)))"
      using cast[OF j] means[OF j] by (simp add: k_def)
    from numbers_flags[OF vals[of k]]
    have len: "length (numbers (map ((!) (cells own)) (G k))) = length (G k)"
      and unit: "\<forall>x\<in>set (numbers (map ((!) (cells own)) (G k))). 0 \<le> x \<and> x \<le> 1"
      by simp_all
    have "numbers (map ((!) (cells own)) (G k)) \<noteq> []"
      using len ne by auto
    from mean_unit[OF this unit]
    have "\<exists>q. cell_at out ''rate'' j = Some q \<and> 0 \<le> q \<and> q \<le> 1"
      unfolding r .
    then show ?thesis
      using ne r cast[OF j] unfolding k_def by blast
  qed
  show ?thesis
    using e a ys ms ps own mask ret rate d obs row unfolding m_def G_def by blast
qed


theorem aggregate_monthly_rates_flagged_witness:
  "flagged ex_flagged 6
   \<and> (\<exists>out. aggregate_monthly_rates ex_parse ex_pyint ex_flagged = Inr out
        \<and> out ''YEAR'' = Some (Numeric (Numpy [Some 2007, Some 2007, Some 2020]))
        \<and> out ''MONTH'' = Some (Numeric (Numpy [Some 3, Some 3, Some 4]))
        \<and> out ''is_parent'' = Some (Numeric (Numpy [Some 0, Some 1, Some 1]))
        \<and> out ''rate'' = Some (Numeric (Numpy [Some 0, Some (1 / 2), Some 1])))"
proof -
  have fl: "flagged ex_flagged 6"
    by (simp add: flagged_def aggregator_columns_def ex_flagged_def nrows_def is_text_def)
  from aggregate_monthly_rates_flagged[OF fl, of ex_parse ex_pyint]
  obtain out where ret: "aggregate_monthly_rates ex_parse ex_pyint ex_flagged = Inr out"
    by blast
  have "\<exists>out'. aggregate_monthly_rates ex_parse ex_pyint ex_flagged = Inr out'
        \<and> out' ''YEAR'' = Some (Numeric (Numpy [Some 2007, Some 2007, Some 2020]))
        \<and> out' ''MONTH'' = Some (Numeric (Numpy [Some 3, Some 3, Some 4]))
        \<and> out' ''is_parent'' = Some (Numeric (Numpy [Some 0, Some 1, Some 1]))
        \<and> out' ''rate'' = Some (Numeric (Numpy [Some 0, Some (1 / 2), Some 1]))"
    by (simp add: aggregate_monthly_rates_def ex_flagged_def keep_mask_def between_def ge_s_def
        le_s_def loc_def groupby_mean_def grouped_rows_def has_null_def group_mean_def
        members_def numbers_def mean_def is_text_def astype_keys_def trunc_def Let_def) blast
  with ret fl show ?thesis
    by simp
qed

section \<open>The rate aggregator: rows without an employment status or an age\<close>

lemma loc_col_poke:
  assumes "i < length m" and "\<not> m ! i"
  shows "loc_col m (poke col i v) = loc_col m col"
proof (cases col)
  case (Object cs)
  then show ?thesis
    using assms by (simp add: select_update)
next
  case (Numeric x)
  then show ?thesis
    using assms by (cases x) (simp_all add: select_update)
qed

text \<open>
  Claim C10. A row whose \<open>EMPSTAT\<close> or \<open>AGE\<close> cell is missing or unparseable has 0 for that
  field after \<open>fillna(0)\<close>, so it fails the eligibility filter: the mask is false at that
  row. The row contributes to no output rate: whatever the row holds in any other
  column, the aggregator's result is the same.
\<close>

theorem ineligible_row_ignored:
  assumes e: "df ''EMPSTAT'' = Some e" and a: "df ''AGE'' = Some a"
    and le: "nrows e = n" and la: "nrows a = n" and i: "i < n"
    and bad: "reading parse e i = None \<or> reading parse a i = None"
  shows "(reading parse e i = None \<longrightarrow> nvals (fillna (to_numeric parse e) 0) ! i = Some 0)
       \<and> (reading parse a i = None \<longrightarrow> nvals (fillna (to_numeric parse a) 0) ! i = Some 0)
       \<and> \<not> eligible parse e a i
       \<and> (\<exists>keep. mask_of (keep_mask parse e a) = Inr keep \<and> length keep = n \<and> \<not> keep ! i)
       \<and> (\<forall>c col v. c \<noteq> ''EMPSTAT'' \<and> c \<noteq> ''AGE'' \<and> df c = Some col \<longrightarrow>
             aggregate_monthly_rates parse pyint (df(c \<mapsto> poke col i v))
               = aggregate_monthly_rates parse pyint df)"
proof -
  define m where "m = map (eligible parse e a) [0..<n]"
  have ie: "i < nrows e" and ia: "i < nrows a"
    using i le la by simp_all
  have fe: "nvals (fillna (to_numeric parse e) 0) ! i = Some 0" if "reading parse e i = None"
    using that ie by (simp add: nvals_fillna reading_def)
  have fa: "nvals (fillna (to_numeric parse a) 0) ! i = Some 0" if "reading parse a i = None"
    using that ia by (simp add: nvals_fillna reading_def)
  have ne: "\<not> eligible parse e a i"
    using bad by (auto simp: eligible_def num0_def)
  have mask: "mask_of (keep_mask parse e a) = Inr m"
    unfolding m_def by (rule mask_of_keep_mask[OF le la])
  have lm: "length m = n" and mi: "\<not> m ! i"
    using i ne by (simp_all add: m_def)
  have same: "aggregate_monthly_rates parse pyint (df(c \<mapsto> poke col i v))
               = aggregate_monthly_rates parse pyint df"
    if c: "c \<noteq> ''EMPSTAT''" "c \<noteq> ''AGE''" and col: "df c = Some col" for c col v
  proof -
    have "loc_col m (poke col i v) = loc_col m col"
      using i lm mi by (intro loc_col_poke) simp_all
    then have "loc m (df(c \<mapsto> poke col i v)) = loc m df"
      using col by (intro ext) (simp add: loc_def)
    then show ?thesis
      using c e a mask by (simp add: aggregate_monthly_rates_def)
  qed
  show ?thesis
    using fe fa ne mask lm mi same by blast
qed

theorem ineligible_row_ignored_witness:
  "ex_flagged ''EMPSTAT'' = Some (Numeric (Masked [Some 10, Some 12, Some 10, Some 10, None, Some 10]))
   \<and> reading ex_parse (Numeric (Masked [Some 10, Some 12, Some 10, Some 10, None, Some 10])) 4 = None
   \<and> ex_flagged ''own_ill_absent''
       = Some (Numeric (Numpy [Some 1, Some 1, Some 0, Some 0, Some 0, Some 1]))
   \<and> poke (Numeric (Numpy [Some 1, Some 1, Some 0, Some 0, Some 0, Some 1])) 4 (Some 1)
       = Numeric (Numpy [Some 1, Some 1, Some 0, Some 0, Some 1, Some 1])
   \<and> aggregate_monthly_rates ex_parse ex_pyint
        (ex_flagged(''own_ill_absent'' \<mapsto>
           Numeric (Numpy [Some 1, Some 1, Some 0, Some 0, Some 1, Some 1])))
       = aggregate_monthly_rates ex_parse ex_pyint ex_flagged"
proof -
  define e where "e = Numeric (Masked [Some 10, Some 12, Some 10, Some 10, None, Some 10])"
  define a where "a = Numeric (Masked [Some 35, Some 41, Some 30, Some 49, Some 30, Some 60])"
  define own where "own = Numeric (Numpy [Some 1, Some 1, Some 0, Some 0, Some 0, Some 1])"
  have ce: "ex_flagged ''EMPSTAT'' = Some e" and ca: "ex_flagged ''AGE'' = Some a"
    and co: "ex_flagged ''own_ill_absent'' = Some own"
    by (simp_all add: ex_flagged_def e_def a_def own_def)
  have le: "nrows e = 6" and la: "nrows a = 6"
    by (simp_all add: nrows_def e_def a_def)
  have r: "reading ex_parse e 4 = None"
    by (simp add: reading_def e_def)
  have p: "poke own 4 (Some 1) = Numeric (Numpy [Some 1, Some 1, Some 0, Some 0, Some 1, Some 1])"
    by (simp add: own_def)
  have "aggregate_monthly_rates ex_parse ex_pyint (ex_flagged(''own_ill_absent'' \<mapsto> poke own 4 (Some 1)))
      = aggregate_monthly_rates ex_parse ex_pyint ex_flagged"
    using ineligible_row_ignored[where df = ex_flagged and parse = ex_parse and pyint = ex_pyint
        and i = 4 and n = 6, OF ce ca le la] r co
    by simp
  then show ?thesis
    using ce co r p unfolding e_def own_def by simp
qed


end
